theory Spec2Isabelle
  imports Main
begin

section \<open>JSON values as the JavaScript code sees them\<close>

text \<open>
  A schema is a parsed JSON document, and the completion engine reads it dynamically
  (\<^verbatim>\<open>curReference[cur]\<close>, object spread, \<^verbatim>\<open>typeof\<close>), so the model keeps the untyped
  value. An object is the list of its own enumerable properties in the order they were
  written; a property read takes the first entry with the key, and where the code
  enumerates the keys of an object (\<^verbatim>\<open>Object.keys\<close>, \<^verbatim>\<open>Object.entries\<close>) the integer-like keys
  come first, as \<open>enumerated\<close> below puts them. Numbers are the integers (fractions and
  exponents play no part in the code that is modelled), and a character is a byte. A
  read that yields \<^verbatim>\<open>undefined\<close> is \<open>None\<close> of \<open>json option\<close>. The read \<open>get\<close> finds own
  properties only; it serves where the key is a keyword of the schema language or a key
  that was enumerated. Where the key comes from the document
  (\<^verbatim>\<open>s.properties[parentKey]\<close>), the members that every object inherits from
  \<^verbatim>\<open>Object.prototype\<close> (\<^verbatim>\<open>constructor\<close>, \<^verbatim>\<open>toString\<close>, ...) are written out in \<open>readMember\<close>.
\<close>

datatype json =
    JNull
  | JBool bool
  | JNum int
  | JStr string
  | JArr "json list"
  | JObj "(string \<times> json) list"

datatype error = TypeError | NotModelled

definition dq :: char where "dq = CHR 0x22"
definition sq :: char where "sq = CHR 0x27"
definition bsl :: char where "bsl = CHR 0x5C"

section \<open>The completion collector\<close>

datatype applied = ApplyText string | ApplySnippet string

record completion =
  label :: string
  apply_c :: "applied option"
  type_c :: "string option"
  detail :: "json option"
  info :: "json option"

text \<open>
  \<^verbatim>\<open>class CompletionCollector { completions = new Map(); reservedKeys = new Set(); ... }\<close>
  A JavaScript \<open>Map\<close> keeps its keys in insertion order, and \<^verbatim>\<open>set\<close> on a key that is
  present replaces the value where it stands.
\<close>

record collector =
  completions :: "(string \<times> completion) list"
  reservedKeys :: "string set"

definition new_collector :: collector where
  "new_collector = \<lparr>completions = [], reservedKeys = {}\<rparr>"

fun map_set :: "string \<Rightarrow> 'v \<Rightarrow> (string \<times> 'v) list \<Rightarrow> (string \<times> 'v) list" where
  "map_set k v [] = [(k, v)]"
| "map_set k v ((k', v') # rest) =
     (if k' = k then (k, v) # rest else (k', v') # map_set k v rest)"

definition map_has :: "string \<Rightarrow> (string \<times> 'v) list \<Rightarrow> bool" where
  "map_has k m = (map_of m k \<noteq> None)"

definition reserve :: "string \<Rightarrow> collector \<Rightarrow> collector" where
  "reserve key c = c\<lparr>reservedKeys := insert key (reservedKeys c)\<rparr>"

definition add :: "completion \<Rightarrow> collector \<Rightarrow> collector" where
  "add completion c =
     (if label completion \<in> reservedKeys c then c
      else c\<lparr>completions := map_set (label completion) completion (completions c)\<rparr>)"

text \<open>\<^verbatim>\<open>Array.from(collector.completions.values())\<close>\<close>

definition proposals :: "collector \<Rightarrow> completion list" where
  "proposals c = map snd (completions c)"

text \<open>A request is a sequence of calls on one collector, starting from a fresh one.\<close>

datatype collector_op = Reserve string | Add completion

fun run_op :: "collector_op \<Rightarrow> collector \<Rightarrow> collector" where
  "run_op (Reserve key) c = reserve key c"
| "run_op (Add completion) c = add completion c"

definition run_ops :: "collector_op list \<Rightarrow> collector \<Rightarrow> collector" where
  "run_ops ops c = fold run_op ops c"

text \<open>
  The shape of the map of a collector: one entry per label, each filed under the label of
  its completion.
\<close>

definition keyed :: "collector \<Rightarrow> bool" where
  "keyed c = (distinct (map fst (completions c)) \<and> (\<forall>(k, v) \<in> set (completions c). label v = k))"

section \<open>Prefix filtering in doComplete\<close>

text \<open>\<^verbatim>\<open>String.prototype.startsWith\<close>: a comparison of code units, position by position.\<close>

definition startsWith :: "string \<Rightarrow> string \<Rightarrow> bool" where
  "startsWith s p = (take (length p) s = p)"

text \<open>
  \<^verbatim>\<open>const prefix = ctx.state.sliceDoc(node.from, ctx.pos).replace(/^("|')/, "");\<close>
  The argument is the sliced text.
\<close>

definition typedPrefix :: "string \<Rightarrow> string" where
  "typedPrefix sliced =
     (case sliced of [] \<Rightarrow> [] | c # cs \<Rightarrow> if c = dq \<or> c = sq then cs else sliced)"

text \<open>
  \<^verbatim>\<open>result.options = Array.from(collector.completions.values()).filter((v) =>
      stripSurroundingQuotes(v.label).startsWith(prefix));\<close>
  \<^verbatim>\<open>stripSurroundingQuotes\<close> lives in \<^verbatim>\<open>utils/node\<close>, which is not among the sources: it is
  the parameter \<open>strip\<close>.
\<close>

definition filterByPrefix :: "(string \<Rightarrow> string) \<Rightarrow> string \<Rightarrow> completion list \<Rightarrow> completion list" where
  "filterByPrefix strip prefix vs = filter (\<lambda>v. startsWith (strip (label v)) prefix) vs"

definition resultOptions :: "(string \<Rightarrow> string) \<Rightarrow> string \<Rightarrow> collector \<Rightarrow> completion list" where
  "resultOptions strip prefix c = filterByPrefix strip prefix (proposals c)"

text \<open>
  Modelled from the spec: \<^verbatim>\<open>stripSurroundingQuotes\<close> of \<^verbatim>\<open>utils/node\<close> is missing from the
  sources. The spec speaks of "stripping any surrounding quote characters": one quote
  character at the start and one at the end are dropped. It serves as the concrete
  instance of the parameter where a statement is evaluated.
\<close>

definition isQuote :: "char \<Rightarrow> bool" where
  "isQuote c = (c = dq \<or> c = sq)"

definition stripSurroundingQuotes :: "string \<Rightarrow> string" where
  "stripSurroundingQuotes s =
     (let s1 = (case s of [] \<Rightarrow> [] | c # cs \<Rightarrow> if isQuote c then cs else s)
      in if s1 \<noteq> [] \<and> isQuote (last s1) then butlast s1 else s1)"

text \<open>A completion that has a label and nothing else.\<close>

definition proposal :: "string \<Rightarrow> completion" where
  "proposal l = \<lparr>label = l, apply_c = None, type_c = None, detail = None, info = None\<rparr>"


section \<open>The JavaScript operations the engine applies to schema values\<close>

text \<open>\<^verbatim>\<open>typeof v === "object"\<close>: true of objects, arrays and \<^verbatim>\<open>null\<close>.\<close>

definition typeof_object :: "json \<Rightarrow> bool" where
  "typeof_object v = (case v of JNull \<Rightarrow> True | JArr _ \<Rightarrow> True | JObj _ \<Rightarrow> True | _ \<Rightarrow> False)"

definition isArray :: "json \<Rightarrow> bool" where
  "isArray v = (case v of JArr _ \<Rightarrow> True | _ \<Rightarrow> False)"

text \<open>Truthiness, as \<^verbatim>\<open>if (v)\<close> and \<^verbatim>\<open>!v\<close> read a value; \<^verbatim>\<open>undefined\<close> is falsy.\<close>

definition truthy :: "json \<Rightarrow> bool" where
  "truthy v = (case v of JNull \<Rightarrow> False | JBool b \<Rightarrow> b | JNum n \<Rightarrow> n \<noteq> 0
                | JStr s \<Rightarrow> s \<noteq> [] | JArr _ \<Rightarrow> True | JObj _ \<Rightarrow> True)"

definition truthy_opt :: "json option \<Rightarrow> bool" where
  "truthy_opt v = (case v of None \<Rightarrow> False | Some w \<Rightarrow> truthy w)"

text \<open>Decimal numerals: \<^verbatim>\<open>String(i)\<close> for an array index or an integer.\<close>

definition digit :: "nat \<Rightarrow> char" where
  "digit d = ''0123456789'' ! d"

fun show_nat :: "nat \<Rightarrow> string" where
  "show_nat n = (if n < 10 then [digit n] else show_nat (n div 10) @ [digit (n mod 10)])"

declare show_nat.simps [simp del]

definition show_int :: "int \<Rightarrow> string" where
  "show_int i = (if i < 0 then CHR ''-'' # show_nat (nat (- i)) else show_nat (nat i))"

text \<open>
  The own enumerable properties of a value, which object spread copies and
  \<^verbatim>\<open>Object.keys\<close> / \<^verbatim>\<open>Object.entries\<close> enumerate: the entries of an object as written, the
  indices of an array or of a string, nothing for \<^verbatim>\<open>null\<close>, a number or a boolean.
\<close>

definition own_entries :: "json \<Rightarrow> (string \<times> json) list" where
  "own_entries v =
     (case v of
        JObj kvs \<Rightarrow> kvs
      | JArr xs \<Rightarrow> zip (map show_nat [0..<length xs]) xs
      | JStr s \<Rightarrow> zip (map show_nat [0..<length s]) (map (\<lambda>c. JStr [c]) s)
      | _ \<Rightarrow> [])"

definition own_keys :: "json \<Rightarrow> string list" where
  "own_keys v = map fst (own_entries v)"

text \<open>
  The order in which JavaScript enumerates own keys: first the array indices (the
  canonical decimal numerals below \<open>2^32 - 1\<close>, so "7" but neither "07" nor "-1") in
  ascending numeric order, then the other keys in the order they were written.
  \<open>objectEntries\<close> is \<^verbatim>\<open>Object.entries\<close> and \<open>objectKeys\<close> is \<^verbatim>\<open>Object.keys\<close>.
\<close>

definition isDigit :: "char \<Rightarrow> bool" where
  "isDigit c = (c \<in> set ''0123456789'')"

definition indexValue :: "string \<Rightarrow> int" where
  "indexValue s = fold (\<lambda>c n. 10 * n + (of_char c - of_char CHR ''0'')) s 0"

definition isArrayIndex :: "string \<Rightarrow> bool" where
  "isArrayIndex k = (k \<noteq> [] \<and> list_all isDigit k
                     \<and> (k = ''0'' \<or> hd k \<in> set ''123456789'')
                     \<and> indexValue k < 4294967295)"

definition enumerated :: "(string \<times> 'v) list \<Rightarrow> (string \<times> 'v) list" where
  "enumerated kvs =
     sort_key (\<lambda>kv. indexValue (fst kv)) (filter (\<lambda>kv. isArrayIndex (fst kv)) kvs)
     @ filter (\<lambda>kv. \<not> isArrayIndex (fst kv)) kvs"

definition objectEntries :: "json \<Rightarrow> (string \<times> json) list" where
  "objectEntries v = enumerated (own_entries v)"

definition objectKeys :: "json \<Rightarrow> string list" where
  "objectKeys v = map fst (objectEntries v)"

text \<open>
  The read \<^verbatim>\<open>o[k]\<close> on a plain object \<open>o\<close> for a key \<open>k\<close> that may be any string: an own
  property is found first; otherwise the names of \<^verbatim>\<open>Object.prototype\<close> yield its members,
  which are functions, or for \<^verbatim>\<open>__proto__\<close> the prototype object itself. All of these are
  truthy, none is an array, and none has an own enumerable property.
\<close>

definition objectPrototypeNames :: "string list" where
  "objectPrototypeNames =
     [''constructor'', ''hasOwnProperty'', ''isPrototypeOf'', ''propertyIsEnumerable'',
      ''toLocaleString'', ''toString'', ''valueOf'', ''__proto__'',
      ''__defineGetter__'', ''__defineSetter__'', ''__lookupGetter__'', ''__lookupSetter__'']"

datatype member = OwnProperty json | InheritedMember | NoMember

definition readMember :: "(string \<times> json) list \<Rightarrow> string \<Rightarrow> member" where
  "readMember kvs k =
     (case map_of kvs k of
        Some v \<Rightarrow> OwnProperty v
      | None \<Rightarrow> if k \<in> set objectPrototypeNames then InheritedMember else NoMember)"

text \<open>
  The property read \<^verbatim>\<open>v[k]\<close> (or \<^verbatim>\<open>v.k\<close>) on a value that is neither \<^verbatim>\<open>null\<close> nor
  \<^verbatim>\<open>undefined\<close>; on those two JavaScript throws a TypeError, which every caller below
  writes out before it reads.
\<close>

definition get :: "json \<Rightarrow> string \<Rightarrow> json option" where
  "get v k =
     (case v of
        JObj kvs \<Rightarrow> map_of kvs k
      | JArr xs \<Rightarrow> if k = ''length'' then Some (JNum (int (length xs)))
                   else map_of (own_entries (JArr xs)) k
      | JStr s \<Rightarrow> if k = ''length'' then Some (JNum (int (length s)))
                   else map_of (own_entries (JStr s)) k
      | _ \<Rightarrow> None)"

text \<open>\<^verbatim>\<open>Array.prototype.join\<close> on strings.\<close>

fun join :: "string \<Rightarrow> string list \<Rightarrow> string" where
  "join sep [] = []"
| "join sep [x] = x"
| "join sep (x # y # ys) = x @ sep @ join sep (y # ys)"

text \<open>
  \<^verbatim>\<open>String(v)\<close>, which is what \<^verbatim>\<open>v.toString()\<close> returns on a value other than \<^verbatim>\<open>null\<close> and
  what a computed property key \<^verbatim>\<open>types[t]\<close> is converted with. An array joins its elements
  with commas, a \<^verbatim>\<open>null\<close> element giving the empty string.
\<close>

fun toString :: "json \<Rightarrow> string" where
  "toString JNull = ''null''"
| "toString (JBool b) = (if b then ''true'' else ''false'')"
| "toString (JNum n) = show_int n"
| "toString (JStr s) = s"
| "toString (JArr xs) = join '','' (map (\<lambda>x. if x = JNull then [] else toString x) xs)"
| "toString (JObj kvs) = ''[object Object]''"

text \<open>\<^verbatim>\<open>v?.toString()\<close>: \<^verbatim>\<open>undefined\<close> for \<^verbatim>\<open>null\<close> and \<^verbatim>\<open>undefined\<close>.\<close>

definition toString_opt :: "json option \<Rightarrow> string option" where
  "toString_opt v = (case v of None \<Rightarrow> None | Some JNull \<Rightarrow> None | Some w \<Rightarrow> Some (toString w))"

subsection \<open>JSON.stringify\<close>

definition hexdigit :: "nat \<Rightarrow> char" where
  "hexdigit d = ''0123456789abcdef'' ! d"

definition quoteChar :: "char \<Rightarrow> string" where
  "quoteChar c =
     (if c = dq then [bsl, dq]
      else if c = bsl then [bsl, bsl]
      else if c = CHR 0x08 then [bsl, CHR ''b'']
      else if c = CHR 0x09 then [bsl, CHR ''t'']
      else if c = CHR 0x0A then [bsl, CHR ''n'']
      else if c = CHR 0x0C then [bsl, CHR ''f'']
      else if c = CHR 0x0D then [bsl, CHR ''r'']
      else if (of_char c :: nat) < 32
        then [bsl, CHR ''u'', CHR ''0'', CHR ''0'', hexdigit (of_char c div 16), hexdigit (of_char c mod 16)]
      else [c])"

definition quoteJSONString :: "string \<Rightarrow> string" where
  "quoteJSONString s = dq # concat (map quoteChar s) @ [dq]"

text \<open>
  \<^verbatim>\<open>JSON.stringify(value, null, gap)\<close> as ECMAScript's SerializeJSONProperty does it, with
  the current indentation as second argument; \<open>gap = []\<close> is the compact form.
\<close>

fun serialize :: "string \<Rightarrow> string \<Rightarrow> json \<Rightarrow> string" where
  "serialize gap ind JNull = ''null''"
| "serialize gap ind (JBool b) = (if b then ''true'' else ''false'')"
| "serialize gap ind (JNum n) = show_int n"
| "serialize gap ind (JStr s) = quoteJSONString s"
| "serialize gap ind (JArr xs) =
     (if xs = [] then ''[]''
      else if gap = [] then ''['' @ join '','' (map (serialize gap (ind @ gap)) xs) @ '']''
      else ''['' @ CHR 0x0A # (ind @ gap)
           @ join ('','' @ CHR 0x0A # (ind @ gap)) (map (serialize gap (ind @ gap)) xs)
           @ CHR 0x0A # ind @ '']'')"
| "serialize gap ind (JObj kvs) =
     (if kvs = [] then ''{}''
      else if gap = [] then
        ''{'' @ join '','' (map (\<lambda>kv. quoteJSONString (fst kv) @ '':'' @ serialize gap (ind @ gap) (snd kv)) kvs) @ ''}''
      else ''{'' @ CHR 0x0A # (ind @ gap)
           @ join ('','' @ CHR 0x0A # (ind @ gap))
               (map (\<lambda>kv. quoteJSONString (fst kv) @ '': '' @ serialize gap (ind @ gap) (snd kv)) kvs)
           @ CHR 0x0A # ind @ ''}'')"

definition stringify :: "json \<Rightarrow> string" where
  "stringify v = serialize [] [] v"

definition stringify_tab :: "json \<Rightarrow> string" where
  "stringify_tab v = serialize [CHR 0x09] [] v"

subsection \<open>Errors as values\<close>

text \<open>
  A thrown TypeError is \<open>Inl TypeError\<close>. \<open>NotModelled\<close> marks the two places where a
  schema leaves its declared type in a way the model does not follow: a truthy \<^verbatim>\<open>enum\<close>
  that is not an array where the code counts its members (\<^verbatim>\<open>enum?: JSONSchema7Type[]\<close>),
  which the code answers with JavaScript's arithmetic on non-numbers, and a truthy
  \<^verbatim>\<open>properties\<close> that is not an object where the code reads it at a key of the document.
\<close>

fun foldE :: "('a \<Rightarrow> 's \<Rightarrow> error + 's) \<Rightarrow> 'a list \<Rightarrow> 's \<Rightarrow> error + 's" where
  "foldE f [] s = Inr s"
| "foldE f (x # xs) s = (case f x s of Inl e \<Rightarrow> Inl e | Inr s' \<Rightarrow> foldE f xs s')"

fun mapE :: "('a \<Rightarrow> error + 'b) \<Rightarrow> 'a list \<Rightarrow> error + 'b list" where
  "mapE f [] = Inr []"
| "mapE f (x # xs) =
     (case f x of Inl e \<Rightarrow> Inl e
      | Inr y \<Rightarrow> (case mapE f xs of Inl e \<Rightarrow> Inl e | Inr ys \<Rightarrow> Inr (y # ys)))"


section \<open>The reference expander\<close>

text \<open>\<^verbatim>\<open>s.split(c)\<close> for a one-character separator: always at least one segment.\<close>

fun splitOn :: "char \<Rightarrow> string \<Rightarrow> string list" where
  "splitOn c [] = [[]]"
| "splitOn c (x # xs) =
     (if x = c then [] # splitOn c xs
      else (case splitOn c xs of [] \<Rightarrow> [[x]] | w # ws \<Rightarrow> (x # w) # ws))"

text \<open>
  \<^verbatim>\<open>private getReferenceSchema(schema, ref) {
    const refPath = ref.split("/");
    let curReference = schema;
    refPath.forEach((cur) => {
      if (!cur) { return; }
      if (cur === "#") { curReference = schema; return; }
      if (typeof curReference === "object") { curReference = curReference[cur]; }
    });
    return curReference;
  }\<close>
  One step of the \<^verbatim>\<open>forEach\<close> is \<open>refStep\<close>; reading a property of \<^verbatim>\<open>null\<close> (whose
  \<^verbatim>\<open>typeof\<close> is "object") throws.
\<close>

definition refStep :: "json \<Rightarrow> string \<Rightarrow> json option \<Rightarrow> error + json option" where
  "refStep schema cur curReference =
     (if cur = [] then Inr curReference
      else if cur = ''#'' then Inr (Some schema)
      else (case curReference of
              None \<Rightarrow> Inr None
            | Some JNull \<Rightarrow> Inl TypeError
            | Some v \<Rightarrow> if typeof_object v then Inr (get v cur) else Inr (Some v)))"

definition getReferenceSchema :: "json \<Rightarrow> string \<Rightarrow> error + json option" where
  "getReferenceSchema schema ref = foldE (refStep schema) (splitOn CHR ''/'' ref) (Some schema)"

text \<open>
  Object spread \<^verbatim>\<open>{...a, ...b}\<close> defines the own properties of \<open>a\<close>, then those of \<open>b\<close>, on
  a fresh object: a key that is present keeps its place and takes the new value.
  (The spread reads its sources in enumeration order; the merged list below differs from
  that only in where integer-like keys stand, which \<open>enumerated\<close> sets right wherever
  the keys of the merged object are enumerated.) \<^verbatim>\<open>Reflect.deleteProperty(o, k)\<close> removes the key.
\<close>

definition spread_into :: "(string \<times> json) list \<Rightarrow> json \<Rightarrow> (string \<times> json) list" where
  "spread_into acc src = fold (\<lambda>kv m. map_set (fst kv) (snd kv) m) (own_entries src) acc"

definition deleteProperty :: "string \<Rightarrow> (string \<times> json) list \<Rightarrow> (string \<times> json) list" where
  "deleteProperty k kvs = filter (\<lambda>kv. fst kv \<noteq> k) kvs"

text \<open>
  \<^verbatim>\<open>private expandSchemaProperty(property, schema) {
    if (typeof property === "object" && property.$ref) {
      const refSchema = this.getReferenceSchema(schema, property.$ref);
      if (typeof refSchema === "object") {
        const dereferenced = { ...property, ...refSchema };
        Reflect.deleteProperty(dereferenced, "$ref");
        return dereferenced;
      }
    }
    return property;
  }\<close>
  \<^verbatim>\<open>property.$ref\<close> on \<^verbatim>\<open>null\<close> throws, and so does \<^verbatim>\<open>.split\<close> on a truthy \<^verbatim>\<open>$ref\<close> that
  is not a string.
\<close>

definition expandSchemaProperty :: "json \<Rightarrow> json \<Rightarrow> error + json" where
  "expandSchemaProperty property schema =
     (if \<not> typeof_object property then Inr property
      else if property = JNull then Inl TypeError
      else (case get property ''$ref'' of
              None \<Rightarrow> Inr property
            | Some r \<Rightarrow>
                if \<not> truthy r then Inr property
                else (case r of
                        JStr ref \<Rightarrow>
                          (case getReferenceSchema schema ref of
                             Inl e \<Rightarrow> Inl e
                           | Inr None \<Rightarrow> Inr property
                           | Inr (Some refSchema) \<Rightarrow>
                               if typeof_object refSchema
                               then Inr (JObj (deleteProperty ''$ref''
                                      (spread_into (spread_into [] property) refSchema)))
                               else Inr property)
                      | _ \<Rightarrow> Inl TypeError)))"

subsection \<open>The same function over a store of objects\<close>

text \<open>
  To say that the fragment passed in is left as it was, objects need an identity. A store
  lists the contents of the objects allocated so far, an address is an index into it,
  and the argument of \<open>expandSchemaProperty\<close> is an address or an immediate value
  (a boolean schema). The function reads its arguments; \<^verbatim>\<open>{ ...property, ...refSchema }\<close>
  allocates, and \<^verbatim>\<open>Reflect.deleteProperty(dereferenced, "$ref")\<close> is its one write.
\<close>

type_synonym store = "json list"

datatype jsref = Addr nat | Imm json

definition deref :: "store \<Rightarrow> jsref \<Rightarrow> json" where
  "deref st r = (case r of Addr a \<Rightarrow> st ! a | Imm v \<Rightarrow> v)"

text \<open>A reference a program can hold: the address of an object that has been allocated.\<close>

definition valid_ref :: "store \<Rightarrow> jsref \<Rightarrow> bool" where
  "valid_ref st r = (case r of Addr a \<Rightarrow> a < length st | Imm v \<Rightarrow> True)"

definition store_delete :: "store \<Rightarrow> nat \<Rightarrow> string \<Rightarrow> store" where
  "store_delete st a k =
     st[a := (case st ! a of JObj kvs \<Rightarrow> JObj (deleteProperty k kvs) | v \<Rightarrow> v)]"

definition expandSchemaProperty_store :: "store \<Rightarrow> jsref \<Rightarrow> jsref \<Rightarrow> error + (jsref \<times> store)" where
  "expandSchemaProperty_store st property schema =
     (if \<not> typeof_object (deref st property) then Inr (property, st)
      else if deref st property = JNull then Inl TypeError
      else (case get (deref st property) ''$ref'' of
              None \<Rightarrow> Inr (property, st)
            | Some r \<Rightarrow>
                if \<not> truthy r then Inr (property, st)
                else (case r of
                        JStr ref \<Rightarrow>
                          (case getReferenceSchema (deref st schema) ref of
                             Inl e \<Rightarrow> Inl e
                           | Inr None \<Rightarrow> Inr (property, st)
                           | Inr (Some refSchema) \<Rightarrow>
                               if typeof_object refSchema
                               then (let dereferenced = length st;
                                         st1 = st @ [JObj (spread_into (spread_into [] (deref st property)) refSchema)];
                                         st2 = store_delete st1 dereferenced ''$ref''
                                     in Inr (Addr dereferenced, st2))
                               else Inr (property, st))
                      | _ \<Rightarrow> Inl TypeError)))"

section \<open>The schema pointer resolver\<close>

text \<open>
  What the engine asks of its host. \<^verbatim>\<open>getSchema(draft, pointer)\<close> of
  \<^verbatim>\<open>utils/schema-lib/getSchema\<close> (with \<^verbatim>\<open>draft = new Draft07(this.schema)\<close>) and the regular
  expressions of the JavaScript runtime are not among the sources: they are fields of a
  record the functions take. A compiled expression is the pair of its pattern and its
  flags; \<open>RegExp_ok\<close> says that \<^verbatim>\<open>new RegExp(pattern, flags)\<close> does not throw.
\<close>

record host =
  getSchema :: "json \<Rightarrow> string \<Rightarrow> json option"
  RegExp_ok :: "string \<Rightarrow> string \<Rightarrow> bool"
  RegExp_test :: "string \<Rightarrow> string \<Rightarrow> string \<Rightarrow> bool"

text \<open>\<^verbatim>\<open>pointer.replace(/\/[^/]*$/, "/")\<close>: everything after the last slash is dropped.\<close>

definition parentPointer :: "string \<Rightarrow> string" where
  "parentPointer pointer =
     (if CHR ''/'' \<in> set pointer then rev (dropWhile (\<lambda>c. c \<noteq> CHR ''/'') (rev pointer))
      else pointer)"

text \<open>
  \<^verbatim>\<open>!subSchema || subSchema.name === "UnknownPropertyError" || subSchema.enum ||
  subSchema.type === "undefined"\<close>
\<close>

definition needsParentPointer :: "json option \<Rightarrow> bool" where
  "needsParentPointer subSchema =
     (case subSchema of
        None \<Rightarrow> True
      | Some v \<Rightarrow> \<not> truthy v
                 \<or> get v ''name'' = Some (JStr ''UnknownPropertyError'')
                 \<or> truthy_opt (get v ''enum'')
                 \<or> get v ''type'' = Some (JStr ''undefined''))"

text \<open>
  The first half of \<^verbatim>\<open>getSchemas\<close>: the pointer and the sub-schema it goes on with.
  \<^verbatim>\<open>let pointer = jsonPointerForPosition(ctx.state, ctx.pos);
  let subSchema = getSchema(draft, pointer);
  if (...) { pointer = pointer.replace(/\/[^/]*$/, "/"); subSchema = getSchema(draft, pointer); }\<close>
\<close>

definition resolvePointer :: "host \<Rightarrow> json \<Rightarrow> string \<Rightarrow> string \<times> json option" where
  "resolvePointer h this_schema pointer =
     (if needsParentPointer (getSchema h this_schema pointer)
      then (parentPointer pointer, getSchema h this_schema (parentPointer pointer))
      else (pointer, getSchema h this_schema pointer))"

text \<open>
  \<^verbatim>\<open>isJsonError(d) { return d.type === "error"; }\<close> on a value that is neither \<^verbatim>\<open>undefined\<close>
  nor \<^verbatim>\<open>null\<close>; on those the read throws, which \<open>getSchemas\<close> writes out.
\<close>

definition isJsonError :: "json \<Rightarrow> bool" where
  "isJsonError d = (get d ''type'' = Some (JStr ''error''))"

text \<open>
  The second half: the root pointer short-circuits, an error node gives no fragment, and
  the first of \<^verbatim>\<open>allOf\<close>, \<^verbatim>\<open>oneOf\<close>, \<^verbatim>\<open>anyOf\<close> that is an array is expanded branch by branch.
\<close>

definition unionBranches :: "json \<Rightarrow> json list option" where
  "unionBranches subSchema =
     (case get subSchema ''allOf'' of
        Some (JArr ss) \<Rightarrow> Some ss
      | _ \<Rightarrow> (case get subSchema ''oneOf'' of
                Some (JArr ss) \<Rightarrow> Some ss
              | _ \<Rightarrow> (case get subSchema ''anyOf'' of
                        Some (JArr ss) \<Rightarrow> Some ss
                      | _ \<Rightarrow> None)))"

definition getSchemas :: "host \<Rightarrow> json \<Rightarrow> json \<Rightarrow> string \<Rightarrow> error + json list" where
  "getSchemas h this_schema schema pointer0 =
     (case resolvePointer h this_schema pointer0 of
        (pointer, subSchema) \<Rightarrow>
          if pointer = [] \<or> pointer = ''/'' then Inr [schema]
          else (case subSchema of
                  None \<Rightarrow> Inl TypeError
                | Some JNull \<Rightarrow> Inl TypeError
                | Some sub \<Rightarrow>
                    if isJsonError sub then Inr []
                    else (case unionBranches sub of
                            Some ss \<Rightarrow>
                              (case mapE (\<lambda>s. expandSchemaProperty s schema) ss of
                                 Inl e \<Rightarrow> Inl e
                               | Inr expanded \<Rightarrow> Inr (sub # expanded))
                          | None \<Rightarrow> Inr [sub])))"


section \<open>The snippet text compiler\<close>

text \<open>
  \<^verbatim>\<open>function json5PropertyInsertSnippet(rawWord, value) {
    if (rawWord.startsWith('"')) { return `"${value}"`; }
    if (rawWord.startsWith("'")) { return `'${value}'`; }
    return value;
  }\<close>
\<close>

definition json5PropertyInsertSnippet :: "string \<Rightarrow> string \<Rightarrow> string" where
  "json5PropertyInsertSnippet rawWord value =
     (if startsWith rawWord [dq] then dq # value @ [dq]
      else if startsWith rawWord [sq] then sq # value @ [sq]
      else value)"

text \<open>\<^verbatim>\<open>text.replace(/[\\$}]/g, "\\$&")\<close>: a backslash before every backslash, dollar and closing brace.\<close>

definition getInsertTextForPlainText :: "string \<Rightarrow> string" where
  "getInsertTextForPlainText text =
     concat (map (\<lambda>c. if c = bsl \<or> c = CHR ''$'' \<or> c = CHR ''}'' then [bsl, c] else [c]) text)"

text \<open>
  \<^verbatim>\<open>private getInsertTextForValue(value, separatorAfter) {
    const text = JSON.stringify(value, null, "\t");
    if (text === "{}") { return "{#{}}" + separatorAfter; }
    else if (text === "[]") { return "[#{}]" + separatorAfter; }
    return this.getInsertTextForPlainText(text + separatorAfter);
  }\<close>
\<close>

definition getInsertTextForValue :: "json \<Rightarrow> string \<Rightarrow> string" where
  "getInsertTextForValue value separatorAfter =
     (let text = stringify_tab value in
      if text = ''{}'' then ''{#{}}'' @ separatorAfter
      else if text = ''[]'' then ''[#{}]'' @ separatorAfter
      else getInsertTextForPlainText (text @ separatorAfter))"

text \<open>
  \<^verbatim>\<open>private getInsertTextForGuessedValue(value, separatorAfter = "") {
    switch (typeof value) {
      case "object":
        if (value === null) { return "${null}" + separatorAfter; }
        return this.getInsertTextForValue(value, separatorAfter);
      case "string": {
        let snippetValue = JSON.stringify(value);
        snippetValue = snippetValue.substr(1, snippetValue.length - 2);
        snippetValue = this.getInsertTextForPlainText(snippetValue);
        return '"${' + snippetValue + '}"' + separatorAfter;
      }
      case "number":
      case "boolean":
        return "${" + JSON.stringify(value) + "}" + separatorAfter;
    }
    return this.getInsertTextForValue(value, separatorAfter);
  }\<close>
\<close>

definition getInsertTextForGuessedValue :: "json \<Rightarrow> string \<Rightarrow> string" where
  "getInsertTextForGuessedValue value separatorAfter =
     (case value of
        JNull \<Rightarrow> ''${null}'' @ separatorAfter
      | JArr _ \<Rightarrow> getInsertTextForValue value separatorAfter
      | JObj _ \<Rightarrow> getInsertTextForValue value separatorAfter
      | JStr _ \<Rightarrow>
          (let snippetValue = stringify value;
               snippetValue = take (length snippetValue - 2) (drop 1 snippetValue);
               snippetValue = getInsertTextForPlainText snippetValue
           in dq # ''${'' @ snippetValue @ ''}'' @ [dq] @ separatorAfter)
      | _ \<Rightarrow> ''${'' @ stringify value @ ''}'' @ separatorAfter)"

text \<open>
  The value part of \<^verbatim>\<open>getInsertTextForProperty\<close> (from \<^verbatim>\<open>let value; let nValueProposals = 0;\<close>
  to the end of \<^verbatim>\<open>if (typeof propertySchema === "object") { ... }\<close>): the guessed \<open>value\<close>
  (\<open>None\<close> while it is \<^verbatim>\<open>undefined\<close>) and \<open>nValueProposals\<close>. \<^verbatim>\<open>!value\<close> holds of
  \<^verbatim>\<open>undefined\<close> and of the empty string.
\<close>

definition notValue :: "string option \<Rightarrow> bool" where
  "notValue value = (case value of None \<Rightarrow> True | Some s \<Rightarrow> s = [])"

text \<open>
  \<^verbatim>\<open>if (propertySchema.enum) {
    if (!value && propertySchema.enum.length === 1) {
      value = this.getInsertTextForGuessedValue(propertySchema.enum[0], "");
    }
    nValueProposals += propertySchema.enum.length;
  }\<close>
\<close>

definition guessFromEnum :: "json \<Rightarrow> string option \<times> nat \<Rightarrow> error + (string option \<times> nat)" where
  "guessFromEnum propertySchema vn =
     (case get propertySchema ''enum'' of
        None \<Rightarrow> Inr vn
      | Some (JArr es) \<Rightarrow>
          Inr (if notValue (fst vn) \<and> length es = 1
               then Some (getInsertTextForGuessedValue (es ! 0) [])
               else fst vn,
               snd vn + length es)
      | Some e \<Rightarrow> if truthy e then Inl NotModelled else Inr vn)"

text \<open>
  \<^verbatim>\<open>if (typeof propertySchema.const !== "undefined") {
    if (!value) { value = this.getInsertTextForGuessedValue(propertySchema.const, ""); }
    nValueProposals++;
  }\<close>
\<close>

definition guessFromConst :: "json \<Rightarrow> string option \<times> nat \<Rightarrow> string option \<times> nat" where
  "guessFromConst propertySchema vn =
     (case get propertySchema ''const'' of
        None \<Rightarrow> vn
      | Some c \<Rightarrow> (if notValue (fst vn) then Some (getInsertTextForGuessedValue c []) else fst vn,
                   snd vn + 1))"

text \<open>
  \<^verbatim>\<open>if (Array.isArray(propertySchema.examples) && propertySchema.examples.length) {
    if (!value) { value = this.getInsertTextForGuessedValue(propertySchema.examples[0], ""); }
    nValueProposals += propertySchema.examples.length;
  }\<close>
\<close>

definition guessFromExamples :: "json \<Rightarrow> string option \<times> nat \<Rightarrow> string option \<times> nat" where
  "guessFromExamples propertySchema vn =
     (case get propertySchema ''examples'' of
        Some (JArr (x # xs)) \<Rightarrow>
          (if notValue (fst vn) then Some (getInsertTextForGuessedValue x []) else fst vn,
           snd vn + length (x # xs))
      | _ \<Rightarrow> vn)"

text \<open>
  \<^verbatim>\<open>let type = Array.isArray(propertySchema.type) ? propertySchema.type[0] : propertySchema.type;
  if (!type) {
    if (propertySchema.properties) { type = "object"; }
    else if (propertySchema.items) { type = "array"; }
  }
  switch (type) { case "boolean": value = "#{}"; ... default: value = "#{}"; }\<close>
\<close>

definition guessedType :: "json \<Rightarrow> json option" where
  "guessedType propertySchema =
     (let type = (case get propertySchema ''type'' of
                    Some (JArr ts) \<Rightarrow> (case ts of [] \<Rightarrow> None | t # _ \<Rightarrow> Some t)
                  | t \<Rightarrow> t)
      in if \<not> truthy_opt type
         then (if truthy_opt (get propertySchema ''properties'') then Some (JStr ''object'')
               else if truthy_opt (get propertySchema ''items'') then Some (JStr ''array'')
               else type)
         else type)"

definition typeSkeleton :: "bool \<Rightarrow> json option \<Rightarrow> string" where
  "typeSkeleton isJSON5 type =
     (if type = Some (JStr ''boolean'') then ''#{}''
      else if type = Some (JStr ''string'') then (if isJSON5 then sq # ''#{}'' @ [sq] else dq # ''#{}'' @ [dq])
      else if type = Some (JStr ''object'') then ''{#{}}''
      else if type = Some (JStr ''array'') then ''[#{}]''
      else if type = Some (JStr ''number'') \<or> type = Some (JStr ''integer'') then ''#{0}''
      else if type = Some (JStr ''null'') then ''#{null}''
      else ''#{}'')"

definition guessValue :: "bool \<Rightarrow> json option \<Rightarrow> error + (string option \<times> nat)" where
  "guessValue isJSON5 propertySchema =
     (case propertySchema of
        None \<Rightarrow> Inr (None, 0)
      | Some ps \<Rightarrow>
          if \<not> typeof_object ps then Inr (None, 0)
          else if ps = JNull then Inl TypeError
          else (case get ps ''default'' of
                  Some d \<Rightarrow> Inr (Some (getInsertTextForGuessedValue d []), 1)
                | None \<Rightarrow>
                    (case guessFromEnum ps (None, 0) of
                       Inl e \<Rightarrow> Inl e
                     | Inr vn1 \<Rightarrow>
                         (let vn3 = guessFromExamples ps (guessFromConst ps vn1) in
                          if fst vn3 = None \<and> snd vn3 = 0
                          then Inr (Some (typeSkeleton isJSON5 (guessedType ps)), 0)
                          else Inr vn3))))"

text \<open>
  \<^verbatim>\<open>private getInsertTextForProperty(key, addValue, rawWord, propertySchema?) {
    propertySchema = propertySchema
      ? this.expandSchemaProperty(propertySchema, this.schema) : propertySchema;
    const isJSON5 = this.opts?.mode === "json5";
    let resultText = isJSON5 ? json5PropertyInsertSnippet(rawWord, key) : `"${key}"`;
    if (!addValue) { return resultText; }
    resultText += ": ";
    ...
    if (!value || nValueProposals > 1) { value = "#{}"; }
    return resultText + value;
  }\<close>
  \<open>insertValue\<close> is the text after the colon.
\<close>

definition expandIfPresent :: "json \<Rightarrow> json option \<Rightarrow> error + json option" where
  "expandIfPresent this_schema propertySchema =
     (case propertySchema of
        None \<Rightarrow> Inr None
      | Some ps \<Rightarrow>
          if truthy ps
          then (case expandSchemaProperty ps this_schema of Inl e \<Rightarrow> Inl e | Inr ps' \<Rightarrow> Inr (Some ps'))
          else Inr (Some ps))"

definition insertValue :: "bool \<Rightarrow> json option \<Rightarrow> error + string" where
  "insertValue isJSON5 propertySchema =
     (case guessValue isJSON5 propertySchema of
        Inl e \<Rightarrow> Inl e
      | Inr (value, nValueProposals) \<Rightarrow>
          Inr (case value of
                 None \<Rightarrow> ''#{}''
               | Some v \<Rightarrow> if v = [] \<or> nValueProposals > 1 then ''#{}'' else v))"

definition getInsertTextForProperty ::
  "json \<Rightarrow> bool \<Rightarrow> string \<Rightarrow> bool \<Rightarrow> string \<Rightarrow> json option \<Rightarrow> error + string" where
  "getInsertTextForProperty this_schema isJSON5 key addValue rawWord propertySchema0 =
     (case expandIfPresent this_schema propertySchema0 of
        Inl e \<Rightarrow> Inl e
      | Inr propertySchema \<Rightarrow>
          (let resultText = (if isJSON5 then json5PropertyInsertSnippet rawWord key
                             else dq # key @ [dq])
           in if \<not> addValue then Inr resultText
              else (case insertValue isJSON5 propertySchema of
                      Inl e \<Rightarrow> Inl e
                    | Inr value \<Rightarrow> Inr (resultText @ '': '' @ value))))"


section \<open>Value proposals\<close>

text \<open>\<^verbatim>\<open>private getLabelForValue(value) { return JSON.stringify(value); }\<close>\<close>

definition getLabelForValue :: "json \<Rightarrow> string" where
  "getLabelForValue v = stringify v"

text \<open>
  The collector object the synthesizer adds to is either the collector itself or, under
  \<^verbatim>\<open>uniqueItems\<close>, the wrapper
  \<^verbatim>\<open>c = { ...c, add(completion) { if (!c.completions.has(completion.label)) {
  collector.add(completion); } }, reserve(key) { collector.reserve(key); } }\<close>.
  The spread copies the reference to the one \<open>Map\<close>, so \<^verbatim>\<open>c.completions\<close> is the
  collector's own map in its current state. The flag \<open>uniq\<close> says which of the two objects
  a function was handed.
\<close>

definition c_add :: "bool \<Rightarrow> completion \<Rightarrow> collector \<Rightarrow> collector" where
  "c_add uniq completion collector =
     (if uniq
      then (if map_has (label completion) (completions collector) then collector
            else add completion collector)
      else add completion collector)"

text \<open>
  \<^verbatim>\<open>private addEnumValueCompletions(schema, collector) {
    if (typeof schema.const !== "undefined") {
      collector.add({ type: schema.type?.toString(), label: this.getLabelForValue(schema.const),
                      info: schema.description });
    }
    if (Array.isArray(schema.enum)) {
      for (let i = 0, length = schema.enum.length; i < length; i++) {
        const enm = schema.enum[i];
        collector.add({ type: schema.type?.toString(), label: this.getLabelForValue(enm),
                        info: schema.description });
      }
    }
  }\<close>
\<close>

definition valueCompletion :: "json \<Rightarrow> json \<Rightarrow> completion" where
  "valueCompletion schema v =
     \<lparr>label = getLabelForValue v, apply_c = None, type_c = toString_opt (get schema ''type''),
      detail = None, info = get schema ''description''\<rparr>"

definition addEnumValueCompletions :: "bool \<Rightarrow> json \<Rightarrow> collector \<Rightarrow> error + collector" where
  "addEnumValueCompletions uniq schema collector =
     (if schema = JNull then Inl TypeError
      else (let c1 = (case get schema ''const'' of
                        None \<Rightarrow> collector
                      | Some c \<Rightarrow> c_add uniq (valueCompletion schema c) collector)
            in (case get schema ''enum'' of
                  Some (JArr es) \<Rightarrow> Inr (fold (\<lambda>enm. c_add uniq (valueCompletion schema enm)) es c1)
                | _ \<Rightarrow> Inr c1)))"

text \<open>\<^verbatim>\<open>for (let i = arrayDepth; i > 0; i--) { value = [value]; type = "array"; }\<close>\<close>

fun wrapInArrays :: "nat \<Rightarrow> json \<Rightarrow> json" where
  "wrapInArrays 0 v = v"
| "wrapInArrays (Suc i) v = wrapInArrays i (JArr [v])"

definition wrappedType :: "nat \<Rightarrow> json \<Rightarrow> string option" where
  "wrappedType arrayDepth schema =
     (if arrayDepth > 0 then Some ''array'' else toString_opt (get schema ''type''))"

definition defaultCompletion :: "nat \<Rightarrow> json \<Rightarrow> json \<Rightarrow> completion" where
  "defaultCompletion arrayDepth schema v =
     \<lparr>label = getLabelForValue (wrapInArrays arrayDepth v), apply_c = None,
      type_c = wrappedType arrayDepth schema, detail = Some (JStr ''Default value''), info = None\<rparr>"

definition exampleCompletion :: "nat \<Rightarrow> json \<Rightarrow> json \<Rightarrow> completion" where
  "exampleCompletion arrayDepth schema v =
     \<lparr>label = getLabelForValue (wrapInArrays arrayDepth v), apply_c = None,
      type_c = wrappedType arrayDepth schema, detail = None, info = None\<rparr>"

text \<open>
  The proposals one call of \<^verbatim>\<open>addDefaultValueCompletions\<close> adds by itself (its first two
  \<^verbatim>\<open>if\<close>s), and its \<^verbatim>\<open>hasProposals\<close>.
\<close>

definition addOwnDefaults :: "bool \<Rightarrow> json \<Rightarrow> nat \<Rightarrow> collector \<Rightarrow> collector" where
  "addOwnDefaults uniq schema arrayDepth collector =
     (let c1 = (case get schema ''default'' of
                  None \<Rightarrow> collector
                | Some d \<Rightarrow> c_add uniq (defaultCompletion arrayDepth schema d) collector)
      in (case get schema ''examples'' of
            Some (JArr exs) \<Rightarrow> fold (\<lambda>example. c_add uniq (exampleCompletion arrayDepth schema example)) exs c1
          | _ \<Rightarrow> c1))"

definition hasProposals :: "json \<Rightarrow> bool" where
  "hasProposals schema =
     (get schema ''default'' \<noteq> None
      \<or> (case get schema ''examples'' of Some (JArr (x # xs)) \<Rightarrow> True | _ \<Rightarrow> False))"

text \<open>
  \<^verbatim>\<open>if (!hasProposals && typeof schema.items === "object" && !Array.isArray(schema.items)
       && arrayDepth < 5 /* beware of recursion */) {
    this.addDefaultValueCompletions(schema.items, collector, arrayDepth + 1);
  }\<close>
\<close>

definition recursesIntoItems :: "json \<Rightarrow> nat \<Rightarrow> bool" where
  "recursesIntoItems schema arrayDepth =
     (\<not> hasProposals schema
      \<and> (case get schema ''items'' of
            Some items \<Rightarrow> typeof_object items \<and> \<not> isArray items
          | None \<Rightarrow> False)
      \<and> arrayDepth < 5)"

definition itemsOf :: "json \<Rightarrow> json" where
  "itemsOf schema = (case get schema ''items'' of Some items \<Rightarrow> items | None \<Rightarrow> JNull)"

function addDefaultValueCompletions :: "bool \<Rightarrow> json \<Rightarrow> collector \<Rightarrow> nat \<Rightarrow> error + collector" where
  "addDefaultValueCompletions uniq schema collector arrayDepth =
     (if schema = JNull then Inl TypeError
      else if recursesIntoItems schema arrayDepth
      then addDefaultValueCompletions uniq (itemsOf schema)
             (addOwnDefaults uniq schema arrayDepth collector) (arrayDepth + 1)
      else Inr (addOwnDefaults uniq schema arrayDepth collector))"
  by pat_completeness auto
termination
  by (relation "measure (\<lambda>(uniq, schema, collector, arrayDepth). 5 - arrayDepth)")
     (auto simp: recursesIntoItems_def)

declare addDefaultValueCompletions.simps [simp del]

text \<open>
  The number of calls of \<^verbatim>\<open>addDefaultValueCompletions\<close> that one call at \<open>arrayDepth\<close>
  causes, itself included: the same recursion, counting instead of collecting.
\<close>

function addDefaultValueCompletions_calls :: "json \<Rightarrow> nat \<Rightarrow> nat" where
  "addDefaultValueCompletions_calls schema arrayDepth =
     (if schema = JNull then 1
      else if recursesIntoItems schema arrayDepth
      then 1 + addDefaultValueCompletions_calls (itemsOf schema) (arrayDepth + 1)
      else 1)"
  by pat_completeness auto
termination
  by (relation "measure (\<lambda>(schema, arrayDepth). 5 - arrayDepth)")
     (auto simp: recursesIntoItems_def)

declare addDefaultValueCompletions_calls.simps [simp del]

text \<open>
  \<^verbatim>\<open>private collectTypes(schema, types) {
    if (Array.isArray(schema.enum) || typeof schema.const !== "undefined") { return; }
    const type = schema.type;
    if (Array.isArray(type)) { type.forEach((t) => (types[t] = true)); }
    else if (type) { types[type] = true; }
  }\<close>
  \<open>types\<close> is the set of the keys that have been set.
\<close>

definition collectTypes :: "json \<Rightarrow> string set \<Rightarrow> error + string set" where
  "collectTypes schema types =
     (if schema = JNull then Inl TypeError
      else if (case get schema ''enum'' of Some e \<Rightarrow> isArray e | None \<Rightarrow> False)
              \<or> get schema ''const'' \<noteq> None
      then Inr types
      else (case get schema ''type'' of
              None \<Rightarrow> Inr types
            | Some (JArr ts) \<Rightarrow> Inr (types \<union> set (map toString ts))
            | Some t \<Rightarrow> if truthy t then Inr (insert (toString t) types) else Inr types))"

text \<open>
  \<^verbatim>\<open>private addSchemaValueCompletions(schema, types, collector) {
    if (typeof schema === "object") {
      this.addEnumValueCompletions(schema, collector);
      this.addDefaultValueCompletions(schema, collector);
      this.collectTypes(schema, types);
      if (Array.isArray(schema.allOf)) {
        schema.allOf.forEach((s) => this.addSchemaValueCompletions(s, types, collector));
      }
      if (Array.isArray(schema.anyOf)) { ... }
      if (Array.isArray(schema.oneOf)) { ... }
    }
  }\<close>
  The state is the pair of \<open>types\<close> and the collector; \<open>branchesOf\<close> reads one of the
  three keywords, and \<open>addSchemaValueCompletions_each\<close> is the \<^verbatim>\<open>forEach\<close>.
\<close>

definition branchesOf :: "json \<Rightarrow> string \<Rightarrow> json list" where
  "branchesOf schema k = (case get schema k of Some (JArr ss) \<Rightarrow> ss | _ \<Rightarrow> [])"

lemma size_map_of:
  "map_of kvs k = Some v \<Longrightarrow> size v < Suc (size_list (size_prod (\<lambda>_. 0) size) kvs)"
  by (induction kvs) (auto split: if_splits)

lemma map_of_zip_index:
  "map_of (zip (map f [0..<length xs]) xs) k = Some v \<Longrightarrow> v \<in> set xs"
  by (auto dest!: map_of_SomeD set_zip_rightD)

lemma size_in_set: "v \<in> set xs \<Longrightarrow> size v < Suc (size_list size xs)"
  by (induction xs) auto

lemma size_get_arr: "get schema k = Some (JArr ss) \<Longrightarrow> size_list size ss < size schema"
proof (cases schema)
  case (JObj kvs)
  assume "get schema k = Some (JArr ss)"
  then show ?thesis using JObj size_map_of [of kvs k "JArr ss"] by (simp add: get_def)
next
  case (JArr xs)
  assume g: "get schema k = Some (JArr ss)"
  then have "JArr ss \<in> set xs"
    using JArr map_of_zip_index [of show_nat xs k "JArr ss"]
    by (auto simp: get_def own_entries_def split: if_splits)
  then show ?thesis using JArr size_in_set [of "JArr ss" xs] by simp
next
  case (JStr s)
  assume "get schema k = Some (JArr ss)"
  then have "JArr ss \<in> set (map (\<lambda>c. JStr [c]) s)"
    using JStr map_of_zip_index [of show_nat "map (\<lambda>c. JStr [c]) s" k "JArr ss"]
    by (auto simp: get_def own_entries_def split: if_splits)
  then show ?thesis by auto
qed (simp_all add: get_def)

lemma size_branchesOf: "size_list size (branchesOf schema k) \<le> size schema"
proof (cases "\<exists>ss. get schema k = Some (JArr ss)")
  case True
  then obtain ss where g: "get schema k = Some (JArr ss)" by blast
  then have "branchesOf schema k = ss" by (simp add: branchesOf_def)
  then show ?thesis using size_get_arr [OF g] by simp
next
  case False
  then have "branchesOf schema k = []"
    by (auto simp: branchesOf_def split: option.splits json.splits)
  then show ?thesis by simp
qed

lemma size_member: "s \<in> set xs \<Longrightarrow> size s < size_list size xs"
  by (induction xs) auto

lemma size_branch_member: "s \<in> set (branchesOf schema k) \<Longrightarrow> size s < size schema"
  using size_member [of s "branchesOf schema k"] size_branchesOf [of schema k] by simp

function addSchemaValueCompletions ::
    "bool \<Rightarrow> json \<Rightarrow> string set \<times> collector \<Rightarrow> error + (string set \<times> collector)"
  and addSchemaValueCompletions_each ::
    "bool \<Rightarrow> json list \<Rightarrow> string set \<times> collector \<Rightarrow> error + (string set \<times> collector)"
where
  "addSchemaValueCompletions uniq schema st =
     (if \<not> typeof_object schema then Inr st
      else (case addEnumValueCompletions uniq schema (snd st) of
              Inl e \<Rightarrow> Inl e
            | Inr c1 \<Rightarrow>
          (case addDefaultValueCompletions uniq schema c1 0 of
              Inl e \<Rightarrow> Inl e
            | Inr c2 \<Rightarrow>
          (case collectTypes schema (fst st) of
              Inl e \<Rightarrow> Inl e
            | Inr types \<Rightarrow>
          (case addSchemaValueCompletions_each uniq (branchesOf schema ''allOf'') (types, c2) of
              Inl e \<Rightarrow> Inl e
            | Inr st1 \<Rightarrow>
          (case addSchemaValueCompletions_each uniq (branchesOf schema ''anyOf'') st1 of
              Inl e \<Rightarrow> Inl e
            | Inr st2 \<Rightarrow>
           addSchemaValueCompletions_each uniq (branchesOf schema ''oneOf'') st2))))))"
| "addSchemaValueCompletions_each uniq [] st = Inr st"
| "addSchemaValueCompletions_each uniq (s # ss) st =
     (case addSchemaValueCompletions uniq s st of
        Inl e \<Rightarrow> Inl e
      | Inr st' \<Rightarrow> addSchemaValueCompletions_each uniq ss st')"
  by pat_completeness auto
termination
proof (relation "measure (\<lambda>x. case x of
          Inl (uniq, schema, st) \<Rightarrow> 2 * size schema + 1
        | Inr (uniq, ss, st) \<Rightarrow> 2 * size_list size ss)", goal_cases)
  case 1
  show ?case by simp
next
  case (2 uniq schema st)
  show ?case using size_branchesOf [of schema "''allOf''"] by simp
next
  case (3 uniq schema st)
  show ?case using size_branchesOf [of schema "''anyOf''"] by simp
next
  case (4 uniq schema st)
  show ?case using size_branchesOf [of schema "''oneOf''"] by simp
next
  case 5
  show ?case by simp
next
  case 6
  show ?case by simp
qed

declare addSchemaValueCompletions.simps [simp del]


section \<open>The editor context\<close>

text \<open>
  The syntax tree and the cursor belong to the editor. The functions below read of a
  syntax node its name (one of the \<^verbatim>\<open>TOKENS\<close> of \<^verbatim>\<open>./constants\<close>), whether
  \<^verbatim>\<open>isPrimitiveValueNode\<close> holds of it, the word of its \<^verbatim>\<open>PropertyName\<close> child
  (\<^verbatim>\<open>getWord(ctx.state.doc, node.getChild(TOKENS.PROPERTY_NAME))\<close>, absent when there is no
  such child) and its parent. Of the context they read the node
  \<^verbatim>\<open>syntaxTree(ctx.state).resolveInner(ctx.pos, -1)\<close>, the pointer
  \<^verbatim>\<open>jsonPointerForPosition(ctx.state, ctx.pos)\<close> and, for a tuple of item schemas, the
  number \<^verbatim>\<open>findNodeIndexInArrayNode(node, valueNode)\<close>. None of these helpers is among
  the sources; their results are the fields of the records.
\<close>

datatype token = JSON_TEXT | OBJECT | ARRAY | PROPERTY | PROPERTY_NAME | INVALID | OTHER_TOKEN string

datatype snode =
  SyntaxNode (node_name: token) (node_isPrimitiveValue: bool)
             (node_propertyNameWord: "string option") (node_parent: "snode option")

record ctx =
  resolveInner :: "snode option"
  jsonPointerForPosition :: string
  findNodeIndexInArrayNode :: int

section \<open>Value completions\<close>

text \<open>
  \<^verbatim>\<open>private extendedRegExp(pattern) {
    let flags = "";
    if (pattern.startsWith("(?i)")) { pattern = pattern.substring(4); flags = "i"; }
    try { return new RegExp(pattern, flags + "u"); }
    catch (e) { try { return new RegExp(pattern, flags); } catch (e) { return undefined; } }
  }\<close>
\<close>

definition extendedRegExp :: "host \<Rightarrow> string \<Rightarrow> (string \<times> string) option" where
  "extendedRegExp h pattern0 =
     (let pattern = (if startsWith pattern0 ''(?i)'' then drop 4 pattern0 else pattern0);
          flags = (if startsWith pattern0 ''(?i)'' then ''i'' else [])
      in if RegExp_ok h pattern (flags @ ''u'') then Some (pattern, flags @ ''u'')
         else if RegExp_ok h pattern flags then Some (pattern, flags)
         else None)"

text \<open>\<^verbatim>\<open>regex?.test(parentKey)\<close>, read as a condition.\<close>

definition regexTest :: "host \<Rightarrow> (string \<times> string) option \<Rightarrow> string \<Rightarrow> bool" where
  "regexTest h regex parentKey =
     (case regex of None \<Rightarrow> False | Some (pattern, flags) \<Rightarrow> RegExp_test h pattern flags parentKey)"

text \<open>\<^verbatim>\<open>addBooleanValueCompletion(value, collector)\<close> and \<^verbatim>\<open>addNullValueCompletion(collector)\<close>.\<close>

definition addBooleanValueCompletion :: "bool \<Rightarrow> collector \<Rightarrow> collector" where
  "addBooleanValueCompletion v collector =
     add \<lparr>label = (if v then ''true'' else ''false''), apply_c = None,
          type_c = Some ''boolean'', detail = None, info = None\<rparr> collector"

definition addNullValueCompletion :: "collector \<Rightarrow> collector" where
  "addNullValueCompletion collector =
     add \<lparr>label = ''null'', apply_c = None, type_c = Some ''null'', detail = None, info = None\<rparr>
       collector"

text \<open>
  The body of the loop \<^verbatim>\<open>for (const s of schemas)\<close> of \<^verbatim>\<open>getValueCompletions\<close>, in its three
  parts. First
  \<^verbatim>\<open>if (node.name === TOKENS.ARRAY && s.items) {
    let c = collector;
    if (s.uniqueItems) { c = { ...c, add(completion) {...}, reserve(key) {...} }; }
    if (Array.isArray(s.items)) {
      let arrayIndex = 0;
      if (valueNode) {
        const foundIdx = findNodeIndexInArrayNode(node, valueNode);
        if (foundIdx >= 0) { arrayIndex = foundIdx; }
      }
      const itemSchema = s.items[arrayIndex];
      if (itemSchema) { this.addSchemaValueCompletions(itemSchema, types, c); }
    } else { this.addSchemaValueCompletions(s.items, types, c); }
  }\<close>
\<close>

definition itemsPart ::
  "ctx \<Rightarrow> bool \<Rightarrow> bool \<Rightarrow> json \<Rightarrow> string set \<times> collector \<Rightarrow> error + (string set \<times> collector)" where
  "itemsPart cx nodeIsArray hasValueNode s st =
     (if \<not> nodeIsArray then Inr st
      else if s = JNull then Inl TypeError
      else (case get s ''items'' of
              None \<Rightarrow> Inr st
            | Some items \<Rightarrow>
                if \<not> truthy items then Inr st
                else (let uniq = truthy_opt (get s ''uniqueItems'') in
                      case items of
                        JArr tuple \<Rightarrow>
                          (let arrayIndex =
                                 (if hasValueNode \<and> findNodeIndexInArrayNode cx \<ge> 0
                                  then nat (findNodeIndexInArrayNode cx) else 0)
                           in if arrayIndex < length tuple \<and> truthy (tuple ! arrayIndex)
                              then addSchemaValueCompletions uniq (tuple ! arrayIndex) st
                              else Inr st)
                      | _ \<Rightarrow> addSchemaValueCompletions uniq items st)))"

text \<open>
  Second, for a named property,
  \<^verbatim>\<open>let propertyMatched = false;
  if (s.properties) {
    const propertySchema = s.properties[parentKey];
    if (propertySchema) { propertyMatched = true;
      this.addSchemaValueCompletions(propertySchema, types, collector); }
  }
  if (s.patternProperties && !propertyMatched) {
    for (const pattern of Object.keys(s.patternProperties)) {
      const regex = this.extendedRegExp(pattern);
      if (regex?.test(parentKey)) {
        propertyMatched = true;
        const propertySchema = s.patternProperties[pattern];
        if (propertySchema) { this.addSchemaValueCompletions(propertySchema, types, collector); }
      }
    }
  }
  if (s.additionalProperties && !propertyMatched) {
    const propertySchema = s.additionalProperties;
    this.addSchemaValueCompletions(propertySchema, types, collector);
  }\<close>
  The state of \<open>patternLoop\<close> is \<open>propertyMatched\<close> with \<open>types\<close> and the collector.

  \<open>exactProperty\<close> is the first \<^verbatim>\<open>if\<close>, up to the test of \<^verbatim>\<open>propertySchema\<close>. The key is the
  word of the document, so the read \<^verbatim>\<open>s.properties[parentKey]\<close> also finds what
  \<^verbatim>\<open>properties\<close> inherits: for a key such as \<^verbatim>\<open>toString\<close> that is not an own property the read
  yields a member of \<^verbatim>\<open>Object.prototype\<close>, which is truthy, so \<^verbatim>\<open>propertyMatched\<close> is set;
  \<^verbatim>\<open>addSchemaValueCompletions\<close> then finds a function (not of type "object") or, for
  \<^verbatim>\<open>__proto__\<close>, an object without any of the keywords, and adds nothing. A truthy
  \<^verbatim>\<open>properties\<close> that is not an object leaves the declared type
  (\<^verbatim>\<open>properties?: { [key: string]: JSONSchema7Definition }\<close>) and inherits from other
  prototypes: the model stops there.
\<close>

datatype property_match = NoMatch | MatchedSchema json | MatchedInherited

definition exactProperty :: "json \<Rightarrow> string \<Rightarrow> error + property_match" where
  "exactProperty s parentKey =
     (case get s ''properties'' of
        None \<Rightarrow> Inr NoMatch
      | Some properties \<Rightarrow>
          if \<not> truthy properties then Inr NoMatch
          else (case properties of
                  JObj kvs \<Rightarrow>
                    (case readMember kvs parentKey of
                       OwnProperty propertySchema \<Rightarrow>
                         if truthy propertySchema then Inr (MatchedSchema propertySchema)
                         else Inr NoMatch
                     | InheritedMember \<Rightarrow> Inr MatchedInherited
                     | NoMember \<Rightarrow> Inr NoMatch)
                | _ \<Rightarrow> Inl NotModelled))"

fun patternLoop ::
  "host \<Rightarrow> json \<Rightarrow> string \<Rightarrow> string list \<Rightarrow> bool \<times> string set \<times> collector
     \<Rightarrow> error + (bool \<times> string set \<times> collector)" where
  "patternLoop h patternProperties parentKey [] mst = Inr mst"
| "patternLoop h patternProperties parentKey (pattern # rest) mst =
     (if regexTest h (extendedRegExp h pattern) parentKey
      then (case get patternProperties pattern of
              None \<Rightarrow> patternLoop h patternProperties parentKey rest (True, snd mst)
            | Some propertySchema \<Rightarrow>
                if truthy propertySchema
                then (case addSchemaValueCompletions False propertySchema (snd mst) of
                        Inl e \<Rightarrow> Inl e
                      | Inr st' \<Rightarrow> patternLoop h patternProperties parentKey rest (True, st'))
                else patternLoop h patternProperties parentKey rest (True, snd mst))
      else patternLoop h patternProperties parentKey rest mst)"

definition propertyPart ::
  "host \<Rightarrow> string option \<Rightarrow> json \<Rightarrow> string set \<times> collector \<Rightarrow> error + (string set \<times> collector)" where
  "propertyPart h parentKey0 s st =
     (case parentKey0 of
        None \<Rightarrow> Inr st
      | Some parentKey \<Rightarrow>
          if s = JNull then Inl TypeError
          else (case (case exactProperty s parentKey of
                        Inl e \<Rightarrow> Inl e
                      | Inr NoMatch \<Rightarrow> Inr (False, st)
                      | Inr MatchedInherited \<Rightarrow> Inr (True, st)
                      | Inr (MatchedSchema propertySchema) \<Rightarrow>
                          (case addSchemaValueCompletions False propertySchema st of
                             Inl e \<Rightarrow> Inl e
                           | Inr st' \<Rightarrow> Inr (True, st'))) of
                  Inl e \<Rightarrow> Inl e
                | Inr mst1 \<Rightarrow>
                    (case (case get s ''patternProperties'' of
                             None \<Rightarrow> Inr mst1
                           | Some patternProperties \<Rightarrow>
                               if truthy patternProperties \<and> \<not> fst mst1
                               then patternLoop h patternProperties parentKey
                                      (objectKeys patternProperties) mst1
                               else Inr mst1) of
                       Inl e \<Rightarrow> Inl e
                     | Inr mst2 \<Rightarrow>
                         (case get s ''additionalProperties'' of
                            None \<Rightarrow> Inr (snd mst2)
                          | Some additionalProperties \<Rightarrow>
                              if truthy additionalProperties \<and> \<not> fst mst2
                              then addSchemaValueCompletions False additionalProperties (snd mst2)
                              else Inr (snd mst2)))))"

text \<open>
  Third,
  \<^verbatim>\<open>if (types["boolean"]) {
    this.addBooleanValueCompletion(true, collector);
    this.addBooleanValueCompletion(false, collector);
  }
  if (types["null"]) { this.addNullValueCompletion(collector); }\<close>
\<close>

definition literalsPart :: "string set \<times> collector \<Rightarrow> string set \<times> collector" where
  "literalsPart st =
     (let c1 = (if ''boolean'' \<in> fst st
                then addBooleanValueCompletion False (addBooleanValueCompletion True (snd st))
                else snd st);
          c2 = (if ''null'' \<in> fst st then addNullValueCompletion c1 else c1)
      in (fst st, c2))"

definition valueStep ::
  "host \<Rightarrow> ctx \<Rightarrow> bool \<Rightarrow> bool \<Rightarrow> string option \<Rightarrow> json \<Rightarrow> string set \<times> collector
     \<Rightarrow> error + (string set \<times> collector)" where
  "valueStep h cx nodeIsArray hasValueNode parentKey s st =
     (case itemsPart cx nodeIsArray hasValueNode s st of
        Inl e \<Rightarrow> Inl e
      | Inr st1 \<Rightarrow>
          (case propertyPart h parentKey s st1 of
             Inl e \<Rightarrow> Inl e
           | Inr st2 \<Rightarrow> Inr (literalsPart st2)))"

text \<open>
  \<^verbatim>\<open>for (const s of schemas) { if (typeof s !== "object") { return; } ... }\<close>: the
  \<^verbatim>\<open>return\<close> leaves \<^verbatim>\<open>getValueCompletions\<close>, and with it the loop.
\<close>

fun valueLoop ::
  "host \<Rightarrow> ctx \<Rightarrow> bool \<Rightarrow> bool \<Rightarrow> string option \<Rightarrow> json list \<Rightarrow> string set \<times> collector
     \<Rightarrow> error + (string set \<times> collector)" where
  "valueLoop h cx nodeIsArray hasValueNode parentKey [] st = Inr st"
| "valueLoop h cx nodeIsArray hasValueNode parentKey (s # rest) st =
     (if \<not> typeof_object s then Inr st
      else (case valueStep h cx nodeIsArray hasValueNode parentKey s st of
              Inl e \<Rightarrow> Inl e
            | Inr st' \<Rightarrow> valueLoop h cx nodeIsArray hasValueNode parentKey rest st'))"

text \<open>
  \<^verbatim>\<open>private getValueCompletions(schema, ctx, types, collector) {
    let node = syntaxTree(ctx.state).resolveInner(ctx.pos, -1);
    let valueNode = null;
    let parentKey = undefined;
    if (node && isPrimitiveValueNode(node)) { valueNode = node; node = node.parent; }
    if (!node) { this.addSchemaValueCompletions(schema, types, collector); return; }
    if (node.name === TOKENS.PROPERTY) {
      const keyNode = node.getChild(TOKENS.PROPERTY_NAME);
      if (keyNode) { parentKey = getWord(ctx.state.doc, keyNode); node = node.parent; }
    }
    if (node && (parentKey !== undefined || node.name === TOKENS.ARRAY)) {
      const schemas = this.getSchemas(schema, ctx);
      for (const s of schemas) { ... }
    }
  }\<close>
\<close>

datatype value_context =
    NoNode
  | NoContainer
  | InContainer (nodeIsArray: bool) (hasValueNode: bool) (parentKeyOf: "string option")

text \<open>
  The walk from the node at the cursor, up to the \<^verbatim>\<open>if\<close> that guards the loop:
  \<open>NoNode\<close> when \<^verbatim>\<open>!node\<close> holds, \<open>InContainer\<close> with \<^verbatim>\<open>node.name === TOKENS.ARRAY\<close>,
  \<^verbatim>\<open>valueNode\<close> being set and \<^verbatim>\<open>parentKey\<close> when the guard holds, \<open>NoContainer\<close> otherwise.
\<close>

definition valueContext :: "ctx \<Rightarrow> value_context" where
  "valueContext cx =
     (let node0 = resolveInner cx;
          valueNode = (case node0 of
                         Some n \<Rightarrow> if node_isPrimitiveValue n then Some n else None
                       | None \<Rightarrow> None);
          node1 = (case node0 of
                     Some n \<Rightarrow> if node_isPrimitiveValue n then node_parent n else Some n
                   | None \<Rightarrow> None)
      in case node1 of
           None \<Rightarrow> NoNode
         | Some n1 \<Rightarrow>
             (let parentKey = (if node_name n1 = PROPERTY then node_propertyNameWord n1 else None);
                  node2 = (if node_name n1 = PROPERTY \<and> node_propertyNameWord n1 \<noteq> None
                           then node_parent n1 else Some n1)
              in case node2 of
                   None \<Rightarrow> NoContainer
                 | Some n2 \<Rightarrow>
                     if parentKey \<noteq> None \<or> node_name n2 = ARRAY
                     then InContainer (node_name n2 = ARRAY) (valueNode \<noteq> None) parentKey
                     else NoContainer))"

definition getValueCompletions ::
  "host \<Rightarrow> json \<Rightarrow> json \<Rightarrow> ctx \<Rightarrow> string set \<Rightarrow> collector \<Rightarrow> error + (string set \<times> collector)" where
  "getValueCompletions h this_schema schema cx types collector =
     (case valueContext cx of
        NoNode \<Rightarrow> addSchemaValueCompletions False schema (types, collector)
      | NoContainer \<Rightarrow> Inr (types, collector)
      | InContainer inArray hasValue parentKey \<Rightarrow>
          (case getSchemas h this_schema schema (jsonPointerForPosition cx) of
             Inl e \<Rightarrow> Inl e
           | Inr schemas \<Rightarrow>
               valueLoop h cx inArray hasValue parentKey schemas (types, collector)))"

section \<open>Property completions\<close>

text \<open>
  \<^verbatim>\<open>private applySnippetCompletion(completion) {
    return snippetCompletion(
      typeof completion.apply !== "string" ? completion.label : completion.apply, completion);
  }\<close>
  \<^verbatim>\<open>snippetCompletion(template, completion)\<close> of the editor returns the completion with its
  \<^verbatim>\<open>apply\<close> replaced by the snippet of the template.
\<close>

definition applySnippetCompletion :: "completion \<Rightarrow> completion" where
  "applySnippetCompletion completion =
     completion\<lparr>apply_c := Some (ApplySnippet
        (case apply_c completion of Some (ApplyText t) \<Rightarrow> t | _ \<Rightarrow> label completion))\<rparr>"

text \<open>\<^verbatim>\<open>v ?? ""\<close>\<close>

definition orEmpty :: "json option \<Rightarrow> json" where
  "orEmpty v = (case v of None \<Rightarrow> JStr [] | Some JNull \<Rightarrow> JStr [] | Some w \<Rightarrow> w)"

text \<open>
  One entry of \<^verbatim>\<open>Object.entries(properties).forEach(([key, value]) => {
    if (typeof value === "object") {
      const description = value.description ?? "";
      const type = value.type ?? "";
      const typeStr = Array.isArray(type) ? type.toString() : type;
      const completion = { label: key,
        apply: this.getInsertTextForProperty(key, addValue, rawWord, value),
        type: "property", detail: typeStr, info: description };
      collector.add(this.applySnippetCompletion(completion));
    }
  })\<close>
\<close>

definition propertyEntry ::
  "json \<Rightarrow> bool \<Rightarrow> bool \<Rightarrow> string \<Rightarrow> string \<times> json \<Rightarrow> collector \<Rightarrow> error + collector" where
  "propertyEntry this_schema isJSON5 addValue rawWord kv collector =
     (if \<not> typeof_object (snd kv) then Inr collector
      else if snd kv = JNull then Inl TypeError
      else (let description = orEmpty (get (snd kv) ''description'');
                type = orEmpty (get (snd kv) ''type'');
                typeStr = (if isArray type then JStr (toString type) else type)
            in case getInsertTextForProperty this_schema isJSON5 (fst kv) addValue rawWord (Some (snd kv)) of
                 Inl e \<Rightarrow> Inl e
               | Inr text \<Rightarrow>
                   Inr (add (applySnippetCompletion
                         \<lparr>label = fst kv, apply_c = Some (ApplyText text), type_c = Some ''property'',
                          detail = Some typeStr, info = Some description\<rparr>) collector)))"

text \<open>
  \<^verbatim>\<open>const label = ...; const completion = { label,
    apply: this.getInsertTextForProperty(label, addValue, rawWord), type: "property" };
  collector.add(this.applySnippetCompletion(completion));\<close>
\<close>

definition propertyNameProposal ::
  "json \<Rightarrow> bool \<Rightarrow> bool \<Rightarrow> string \<Rightarrow> string \<Rightarrow> collector \<Rightarrow> error + collector" where
  "propertyNameProposal this_schema isJSON5 addValue rawWord lbl collector =
     (case getInsertTextForProperty this_schema isJSON5 lbl addValue rawWord None of
        Inl e \<Rightarrow> Inl e
      | Inr text \<Rightarrow>
          Inr (add (applySnippetCompletion
                \<lparr>label = lbl, apply_c = Some (ApplyText text), type_c = Some ''property'',
                 detail = None, info = None\<rparr>) collector))"

text \<open>
  \<^verbatim>\<open>const propertyNames = s.propertyNames;
  if (typeof propertyNames === "object") {
    if (propertyNames.enum) {
      propertyNames.enum.forEach((v) => { const label = v?.toString(); if (label) { ... } });
    }
    if (propertyNames.const) { const label = propertyNames.const.toString(); ... }
  }\<close>
  \<^verbatim>\<open>.forEach\<close> on a truthy \<^verbatim>\<open>enum\<close> that is not an array throws.
\<close>

definition propertyNamesPart ::
  "json \<Rightarrow> bool \<Rightarrow> bool \<Rightarrow> string \<Rightarrow> json \<Rightarrow> collector \<Rightarrow> error + collector" where
  "propertyNamesPart this_schema isJSON5 addValue rawWord s collector =
     (case get s ''propertyNames'' of
        None \<Rightarrow> Inr collector
      | Some propertyNames \<Rightarrow>
          if \<not> typeof_object propertyNames then Inr collector
          else if propertyNames = JNull then Inl TypeError
          else (case (case get propertyNames ''enum'' of
                        None \<Rightarrow> Inr collector
                      | Some enum \<Rightarrow>
                          if \<not> truthy enum then Inr collector
                          else (case enum of
                                  JArr vs \<Rightarrow>
                                    foldE (\<lambda>v c. case toString_opt (Some v) of
                                                   None \<Rightarrow> Inr c
                                                 | Some lbl \<Rightarrow>
                                                     if lbl = [] then Inr c
                                                     else propertyNameProposal this_schema isJSON5
                                                            addValue rawWord lbl c)
                                      vs collector
                                | _ \<Rightarrow> Inl TypeError)) of
                  Inl e \<Rightarrow> Inl e
                | Inr c1 \<Rightarrow>
                    (case get propertyNames ''const'' of
                       None \<Rightarrow> Inr c1
                     | Some k \<Rightarrow>
                         if truthy k
                         then propertyNameProposal this_schema isJSON5 addValue rawWord (toString k) c1
                         else Inr c1)))"

text \<open>
  The callback of \<^verbatim>\<open>schemas.forEach((s) => { if (typeof s !== "object") { return; } ... })\<close>:
  its \<^verbatim>\<open>return\<close> ends the callback for this fragment only.
\<close>

definition propertyStep ::
  "json \<Rightarrow> bool \<Rightarrow> bool \<Rightarrow> string \<Rightarrow> json \<Rightarrow> collector \<Rightarrow> error + collector" where
  "propertyStep this_schema isJSON5 addValue rawWord s collector =
     (if \<not> typeof_object s then Inr collector
      else if s = JNull then Inl TypeError
      else (case (case get s ''properties'' of
                    None \<Rightarrow> Inr collector
                  | Some properties \<Rightarrow>
                      if truthy properties
                      then foldE (propertyEntry this_schema isJSON5 addValue rawWord)
                             (objectEntries properties) collector
                      else Inr collector) of
              Inl e \<Rightarrow> Inl e
            | Inr c1 \<Rightarrow> propertyNamesPart this_schema isJSON5 addValue rawWord s c1))"

text \<open>
  \<^verbatim>\<open>private getPropertyCompletions(schema, ctx, node, collector, addValue, rawWord) {
    const properties = node.getChildren(TOKENS.PROPERTY);
    properties.forEach((p) => {
      const key = getWord(ctx.state.doc, p.getChild(TOKENS.PROPERTY_NAME));
      collector.reserve(stripSurroundingQuotes(key));
    });
    const schemas = this.getSchemas(schema, ctx);
    schemas.forEach((s) => { ... });
  }\<close>
  \<open>siblingWords\<close> are the words \<open>key\<close> of the object node's properties, in order, and
  \<open>strip\<close> is \<^verbatim>\<open>stripSurroundingQuotes\<close>.
\<close>

definition getPropertyCompletions ::
  "host \<Rightarrow> (string \<Rightarrow> string) \<Rightarrow> json \<Rightarrow> bool \<Rightarrow> json \<Rightarrow> ctx \<Rightarrow> string list \<Rightarrow> collector
     \<Rightarrow> bool \<Rightarrow> string \<Rightarrow> error + collector" where
  "getPropertyCompletions h strip this_schema isJSON5 schema cx siblingWords collector addValue rawWord =
     (let c0 = fold (\<lambda>key. reserve (strip key)) siblingWords collector
      in case getSchemas h this_schema schema (jsonPointerForPosition cx) of
           Inl e \<Rightarrow> Inl e
         | Inr schemas \<Rightarrow> foldE (propertyStep this_schema isJSON5 addValue rawWord) schemas c0)"


section \<open>Reading results, and requests to evaluate\<close>

text \<open>The labels of the proposals in a result.\<close>

definition valueLabels :: "error + (string set \<times> collector) \<Rightarrow> string list option" where
  "valueLabels r = (case r of Inl e \<Rightarrow> None | Inr st \<Rightarrow> Some (map label (proposals (snd st))))"

definition propertyLabels :: "error + collector \<Rightarrow> string list option" where
  "propertyLabels r = (case r of Inl e \<Rightarrow> None | Inr c \<Rightarrow> Some (map label (proposals c)))"

text \<open>
  The cursor in the value of the property \<open>k\<close> of the root object: the node at the cursor is
  the property, its parent the object.
\<close>

definition propertyValueCtx :: "string \<Rightarrow> ctx" where
  "propertyValueCtx k = \<lparr>resolveInner = Some (SyntaxNode PROPERTY False (Some k)
                                    (Some (SyntaxNode OBJECT False None None))),
               jsonPointerForPosition = ''/'' @ k, findNodeIndexInArrayNode = - 1\<rparr>"

text \<open>
  What a shallow merge in which the referenced fragment takes precedence holds under a
  key: the referenced fragment's entry if it has one, the referencing fragment's
  otherwise.
\<close>

definition mergedEntry :: "json \<Rightarrow> json \<Rightarrow> string \<Rightarrow> json option" where
  "mergedEntry property refSchema k =
     (case map_of (own_entries refSchema) k of
        Some v \<Rightarrow> Some v
      | None \<Rightarrow> map_of (own_entries property) k)"

text \<open>
  A root schema with one definition, and a fragment that refers to it and narrows its
  \<^verbatim>\<open>type\<close>.
\<close>

definition refRoot :: json where
  "refRoot = JObj [(''definitions'', JObj [(''X'', JObj [(''type'', JStr ''string''), (''default'', JStr ''hi'')])])]"

definition refFragment :: json where
  "refFragment = JObj [(''$ref'', JStr ''#/definitions/X''), (''type'', JStr ''number''), (''description'', JStr ''d'')]"

text \<open>
  The trigger of the parent-pointer fallback as the specification words it: the
  resolution fails, or yields an unknown-property error, a bare enum-only node (an object
  whose one key is \<^verbatim>\<open>enum\<close>), or a node of type "undefined".
\<close>

definition bareEnumOnly :: "json \<Rightarrow> bool" where
  "bareEnumOnly v = (case v of JObj kvs \<Rightarrow> map fst kvs = [''enum''] | _ \<Rightarrow> False)"

definition statedFallbackTrigger :: "json option \<Rightarrow> bool" where
  "statedFallbackTrigger subSchema =
     (case subSchema of
        None \<Rightarrow> True
      | Some v \<Rightarrow> \<not> truthy v
                 \<or> get v ''name'' = Some (JStr ''UnknownPropertyError'')
                 \<or> bareEnumOnly v
                 \<or> get v ''type'' = Some (JStr ''undefined''))"

text \<open>
  An object schema whose property \<^verbatim>\<open>colour\<close> is a string with an enum, and a host that
  resolves \<^verbatim>\<open>/colour\<close> to that node and nothing else.
\<close>

definition colourNode :: json where
  "colourNode = JObj [(''type'', JStr ''string''), (''enum'', JArr [JStr ''red'', JStr ''green''])]"

definition colourRoot :: json where
  "colourRoot = JObj [(''type'', JStr ''object''), (''properties'', JObj [(''colour'', colourNode)])]"

definition colourHost :: host where
  "colourHost = \<lparr>getSchema = (\<lambda>schema pointer. if pointer = ''/colour'' then Some colourNode else None),
                 RegExp_ok = (\<lambda>pattern flags. True),
                 RegExp_test = (\<lambda>pattern flags s. False)\<rparr>"

text \<open>
  The number of literal candidates that \<^verbatim>\<open>enum\<close>, \<^verbatim>\<open>const\<close> and \<^verbatim>\<open>examples\<close> supply: the
  members of an \<^verbatim>\<open>enum\<close> array, one for a \<^verbatim>\<open>const\<close>, the members of an \<^verbatim>\<open>examples\<close> array.
\<close>

definition literalCandidates :: "json \<Rightarrow> nat" where
  "literalCandidates ps =
     (case get ps ''enum'' of Some (JArr es) \<Rightarrow> length es | _ \<Rightarrow> 0)
     + (if get ps ''const'' \<noteq> None then 1 else 0)
     + (case get ps ''examples'' of Some (JArr xs) \<Rightarrow> length xs | _ \<Rightarrow> 0)"

text \<open>\<^verbatim>\<open>enum?: JSONSchema7Type[]\<close>: the keyword is absent or holds an array.\<close>

definition enumIsArrayOrAbsent :: "json \<Rightarrow> bool" where
  "enumIsArrayOrAbsent ps = (case get ps ''enum'' of None \<Rightarrow> True | Some e \<Rightarrow> isArray e)"

text \<open>The key part of the inserted text, before the colon.\<close>

definition keyText :: "bool \<Rightarrow> string \<Rightarrow> string \<Rightarrow> string" where
  "keyText isJSON5 rawWord key =
     (if isJSON5 then json5PropertyInsertSnippet rawWord key else dq # key @ [dq])"

text \<open>The example of the claim: a \<^verbatim>\<open>default\<close> together with an \<^verbatim>\<open>enum\<close> of two members.\<close>

definition defaultWithEnum :: json where
  "defaultWithEnum = JObj [(''default'', JNum 1), (''enum'', JArr [JNum 1, JNum 2])]"

text \<open>No \<^verbatim>\<open>default\<close>, an \<^verbatim>\<open>enum\<close> of one member and a \<^verbatim>\<open>const\<close>: two candidates.\<close>

definition enumWithConst :: json where
  "enumWithConst = JObj [(''enum'', JArr [JNum 1]), (''const'', JNum 1)]"

text \<open>
  A schema of seven nested \<^verbatim>\<open>items\<close> without defaults, and a root schema whose definition
  \<^verbatim>\<open>A\<close> refers to itself.
\<close>

fun nestedItems :: "nat \<Rightarrow> json" where
  "nestedItems 0 = JObj [(''default'', JNum 0)]"
| "nestedItems (Suc n) = JObj [(''items'', nestedItems n)]"

definition selfRefNode :: "(string \<times> json) list" where
  "selfRefNode = [(''$ref'', JStr ''#/definitions/A''), (''type'', JStr ''string'')]"

definition selfRefRoot :: json where
  "selfRefRoot = JObj [(''definitions'', JObj [(''A'', JObj selfRefNode)])]"

text \<open>
  What one pattern of \<^verbatim>\<open>patternProperties\<close> contributes once it has matched (the schema
  under it, if truthy), and the patterns that match a key, in the order of
  \<^verbatim>\<open>Object.keys\<close>.
\<close>

definition patternContribution ::
  "json \<Rightarrow> string \<Rightarrow> string set \<times> collector \<Rightarrow> error + (string set \<times> collector)" where
  "patternContribution patternProperties pattern st =
     (case get patternProperties pattern of
        None \<Rightarrow> Inr st
      | Some propertySchema \<Rightarrow>
          if truthy propertySchema then addSchemaValueCompletions False propertySchema st
          else Inr st)"

definition matchingPatterns :: "host \<Rightarrow> json \<Rightarrow> string \<Rightarrow> string list" where
  "matchingPatterns h patternProperties parentKey =
     filter (\<lambda>pattern. regexTest h (extendedRegExp h pattern) parentKey) (objectKeys patternProperties)"

text \<open>
  A schema with three patterns, of which \<^verbatim>\<open>^a\<close> and \<^verbatim>\<open>^ab\<close> match the key \<^verbatim>\<open>abc\<close>. The host
  stands for the runtime's regular expressions on two forms of pattern: \<^verbatim>\<open>^literal\<close> tests
  whether the string starts with the literal, and a literal without \<^verbatim>\<open>^\<close> whether the
  string contains it.
\<close>

fun containsText :: "string \<Rightarrow> string \<Rightarrow> bool" where
  "containsText [] literal = (literal = [])"
| "containsText (c # s) literal = (startsWith (c # s) literal \<or> containsText s literal)"

definition patSchema :: json where
  "patSchema = JObj [(''patternProperties'',
                        JObj [(''^a'', JObj [(''enum'', JArr [JStr ''x''])]),
                              (''^ab'', JObj [(''enum'', JArr [JStr ''y''])]),
                              (''^z'', JObj [(''enum'', JArr [JStr ''z''])])]),
                     (''additionalProperties'', JObj [(''enum'', JArr [JStr ''w''])])]"

definition caretHost :: host where
  "caretHost = \<lparr>getSchema = (\<lambda>schema pointer. None),
                RegExp_ok = (\<lambda>pattern flags. True),
                RegExp_test = (\<lambda>pattern flags s.
                   case pattern of
                     c # literal \<Rightarrow> if c = CHR ''^'' then startsWith s literal
                                    else containsText s (c # literal)
                   | [] \<Rightarrow> True)\<rparr>"

text \<open>
  A schema whose \<^verbatim>\<open>patternProperties\<close> write the integer-like pattern \<^verbatim>\<open>1\<close> after \<^verbatim>\<open>^a\<close>, and
  have a pattern \<^verbatim>\<open>^t\<close>, which the keys \<^verbatim>\<open>tx\<close> and \<^verbatim>\<open>toString\<close> match; its \<^verbatim>\<open>properties\<close>
  declare the key \<^verbatim>\<open>b\<close> only.
\<close>

definition indexPatterns :: json where
  "indexPatterns = JObj [(''^a'', JObj [(''enum'', JArr [JStr ''x''])]),
                         (''1'', JObj [(''enum'', JArr [JStr ''y''])]),
                         (''^t'', JObj [(''enum'', JArr [JStr ''z''])])]"

definition indexPatSchema :: json where
  "indexPatSchema = JObj [(''properties'', JObj [(''b'', JObj [(''enum'', JArr [JStr ''p''])])]),
                          (''patternProperties'', indexPatterns),
                          (''additionalProperties'', JObj [(''enum'', JArr [JStr ''w''])])]"

text \<open>
  The types one node contributes: those of its \<^verbatim>\<open>type\<close>, unless the node itself has an
  \<^verbatim>\<open>enum\<close> array or a \<^verbatim>\<open>const\<close>.
\<close>

definition ownTypes :: "json \<Rightarrow> string set" where
  "ownTypes schema =
     (if (case get schema ''enum'' of Some e \<Rightarrow> isArray e | None \<Rightarrow> False)
         \<or> get schema ''const'' \<noteq> None
      then {}
      else (case get schema ''type'' of
              None \<Rightarrow> {}
            | Some (JArr ts) \<Rightarrow> set (map toString ts)
            | Some t \<Rightarrow> if truthy t then {toString t} else {}))"

text \<open>
  The types a fragment contributes: the own types of each of its nodes, the fragment
  itself and, recursively, the members of its \<^verbatim>\<open>allOf\<close>, \<^verbatim>\<open>anyOf\<close> and \<^verbatim>\<open>oneOf\<close>. A value that
  is not an object contributes nothing.
\<close>

function contributedTypes :: "json \<Rightarrow> string set" where
  "contributedTypes schema =
     (if \<not> typeof_object schema \<or> schema = JNull then {}
      else ownTypes schema
           \<union> \<Union> (set (map contributedTypes
                (branchesOf schema ''allOf'' @ branchesOf schema ''anyOf'' @ branchesOf schema ''oneOf''))))"
  by pat_completeness auto

termination
  by (relation "measure size") (auto simp: size_branch_member)

text \<open>
  A schema whose property \<^verbatim>\<open>p\<close> has an \<^verbatim>\<open>enum\<close> in one branch of its \<^verbatim>\<open>allOf\<close> and the type
  boolean in another, and a host that resolves nothing.
\<close>

definition mixNode :: json where
  "mixNode = JObj [(''allOf'', JArr [JObj [(''enum'', JArr [JNum 1])],
                                      JObj [(''type'', JStr ''boolean'')]])]"

definition mixSchema :: json where
  "mixSchema = JObj [(''properties'', JObj [(''p'', mixNode)])]"

definition silentHost :: host where
  "silentHost = \<lparr>getSchema = (\<lambda>schema pointer. None),
                 RegExp_ok = (\<lambda>pattern flags. True),
                 RegExp_test = (\<lambda>pattern flags s. False)\<rparr>"

text \<open>
  An array schema with \<^verbatim>\<open>uniqueItems\<close> whose \<^verbatim>\<open>items\<close> is an enum of the values \<open>es\<close>; for
  \<open>es\<close> = red, green, blue the schema of the example.
\<close>

definition enumItems :: "json list \<Rightarrow> json" where
  "enumItems es = JObj [(''enum'', JArr es)]"

definition uniqueArrayOf :: "json list \<Rightarrow> json" where
  "uniqueArrayOf es = JObj [(''type'', JStr ''array''), (''items'', enumItems es), (''uniqueItems'', JBool True)]"

text \<open>
  The request for the document \<^verbatim>\<open>["red", |]\<close>: the node at the cursor is the array, the
  pointer is that of its second element, and the host resolves the pointer to the schema
  of the items.
\<close>

definition colours :: "json list" where
  "colours = [JStr ''red'', JStr ''green'', JStr ''blue'']"

definition coloursHost :: host where
  "coloursHost = \<lparr>getSchema = (\<lambda>schema pointer. if pointer = ''/1'' then Some (enumItems colours) else None),
                  RegExp_ok = (\<lambda>pattern flags. True),
                  RegExp_test = (\<lambda>pattern flags s. False)\<rparr>"

definition coloursCtx :: ctx where
  "coloursCtx = \<lparr>resolveInner = Some (SyntaxNode ARRAY False None
                                     (Some (SyntaxNode JSON_TEXT False None None))),
                 jsonPointerForPosition = ''/1'', findNodeIndexInArrayNode = - 1\<rparr>"

text \<open>
  An object \<^verbatim>\<open>obj\<close> whose schema has a boolean schema among the branches of its \<^verbatim>\<open>allOf\<close>,
  before a branch that describes the properties \<^verbatim>\<open>k\<close> and \<^verbatim>\<open>z\<close>; a host that resolves the
  pointers into \<^verbatim>\<open>obj\<close>; and the cursor in the value of \<^verbatim>\<open>k\<close>.
\<close>

definition laterBranch :: json where
  "laterBranch = JObj [(''properties'', JObj [(''k'', JObj [(''enum'', JArr [JStr ''b''])]),
                                               (''z'', JObj [(''type'', JStr ''string'')])])]"

definition objNode :: json where
  "objNode = JObj [(''properties'', JObj [(''k'', JObj [(''enum'', JArr [JStr ''a''])])]),
                   (''allOf'', JArr [JBool True, laterBranch])]"

definition objRoot :: json where
  "objRoot = JObj [(''properties'', JObj [(''obj'', objNode)])]"

definition objHost :: host where
  "objHost = \<lparr>getSchema = (\<lambda>schema pointer.
                   if pointer = ''/obj/k'' then Some (JObj [(''enum'', JArr [JStr ''a''])])
                   else if pointer = ''/obj/'' then Some objNode else None),
              RegExp_ok = (\<lambda>pattern flags. True),
              RegExp_test = (\<lambda>pattern flags s. False)\<rparr>"

definition objValueCtx :: ctx where
  "objValueCtx = \<lparr>resolveInner = Some (SyntaxNode PROPERTY False (Some ''k'')
                                      (Some (SyntaxNode OBJECT False None None))),
                  jsonPointerForPosition = ''/obj/k'', findNodeIndexInArrayNode = - 1\<rparr>"

section \<open>Properties of the collector\<close>

lemma map_of_map_set: "map_of (map_set k v m) = (map_of m)(k \<mapsto> v)"
  by (induction m) auto

lemma keys_map_set:
  "map fst (map_set k v m) = (if k \<in> fst ` set m then map fst m else map fst m @ [k])"
  by (induction m) force+

lemma distinct_map_set: "distinct (map fst m) \<Longrightarrow> distinct (map fst (map_set k v m))"
  by (simp add: keys_map_set)

lemma set_map_set: "set (map_set k v m) \<subseteq> insert (k, v) (set m)"
  by (induction m) (auto split: if_splits)

lemma keyed_add: "keyed c \<Longrightarrow> keyed (add v c)"
proof -
  assume k: "keyed c"
  show ?thesis
  proof (cases "label v \<in> reservedKeys c")
    case True
    then show ?thesis using k by (simp add: add_def)
  next
    case False
    have "\<forall>(k, w) \<in> set (map_set (label v) v (completions c)). label w = k"
      using k set_map_set [of "label v" v "completions c"] unfolding keyed_def by blast
    then show ?thesis using k False by (simp add: add_def keyed_def distinct_map_set)
  qed
qed


lemma keyed_run_op: "keyed c \<Longrightarrow> keyed (run_op op c)"
  by (cases op) (simp_all add: keyed_add, simp add: keyed_def reserve_def)

lemma keyed_run_ops: "keyed c \<Longrightarrow> keyed (run_ops ops c)"
  unfolding run_ops_def by (induction ops arbitrary: c) (auto simp: keyed_run_op)

lemma keyed_new: "keyed new_collector"
  by (simp add: keyed_def new_collector_def)

lemma run_ops_append: "run_ops (xs @ ys) c = run_ops ys (run_ops xs c)"
  by (simp add: run_ops_def)

lemma run_ops_Cons: "run_ops (x # xs) c = run_ops xs (run_op x c)"
  by (simp add: run_ops_def)

lemma reserved_run_ops: "reservedKeys (run_ops ops c) = reservedKeys c \<union> {k. Reserve k \<in> set ops}"
proof (induction ops arbitrary: c)
  case Nil
  show ?case by (simp add: run_ops_def)
next
  case (Cons op ops)
  show ?case
  proof (cases op)
    case (Reserve key)
    then show ?thesis using Cons [of "run_op op c"] by (auto simp: run_ops_Cons reserve_def)
  next
    case (Add v)
    then show ?thesis using Cons [of "run_op op c"] by (auto simp: run_ops_Cons add_def)
  qed
qed

lemma reserved_frozen:
  "l \<in> reservedKeys c \<Longrightarrow> map_of (completions (run_ops ops c)) l = map_of (completions c) l"
proof (induction ops arbitrary: c)
  case Nil
  show ?case by (simp add: run_ops_def)
next
  case (Cons op ops)
  have r: "l \<in> reservedKeys (run_op op c)"
    using Cons.prems by (cases op) (auto simp: reserve_def add_def)
  have "map_of (completions (run_op op c)) l = map_of (completions c) l"
    using Cons.prems by (cases op) (auto simp: reserve_def add_def map_of_map_set)
  then show ?case using Cons.IH [OF r] by (simp add: run_ops_Cons)
qed

lemma untouched:
  "\<forall>v. Add v \<in> set ops \<longrightarrow> label v \<noteq> l \<Longrightarrow>
   map_of (completions (run_ops ops c)) l = map_of (completions c) l"
proof (induction ops arbitrary: c)
  case Nil
  show ?case by (simp add: run_ops_def)
next
  case (Cons op ops)
  have "map_of (completions (run_op op c)) l = map_of (completions c) l"
    using Cons.prems by (cases op) (auto simp: reserve_def add_def map_of_map_set)
  then show ?case using Cons by (simp add: run_ops_Cons)
qed

lemma keyed_absent:
  assumes "keyed c" and "map_of (completions c) l = None"
  shows "\<forall>v \<in> set (proposals c). label v \<noteq> l"
proof
  fix v assume "v \<in> set (proposals c)"
  then obtain k where kv: "(k, v) \<in> set (completions c)"
    by (auto simp: proposals_def)
  then have "label v = k" using assms(1) unfolding keyed_def by blast
  moreover have "k \<in> fst ` set (completions c)" using kv by force
  moreover have "l \<notin> fst ` set (completions c)"
    using assms(2) by (simp add: map_of_eq_None_iff)
  ultimately show "label v \<noteq> l" by blast
qed

lemma filter_keyed_aux:
  "distinct (map fst m) \<Longrightarrow> \<forall>(k, v) \<in> set m. label v = k \<Longrightarrow> map_of m l = Some c \<Longrightarrow>
   filter (\<lambda>v. label v = l) (map snd m) = [c]"
proof (induction m)
  case Nil
  then show ?case by simp
next
  case (Cons a m)
  obtain k v where a: "a = (k, v)" by (cases a)
  have lab: "label v = k" using Cons.prems(2) a by simp
  have rest: "\<forall>(k', v') \<in> set m. label v' = k'" using Cons.prems(2) by simp
  have dist: "distinct (map fst m)" and fresh: "k \<notin> fst ` set m" using Cons.prems(1) a by simp_all
  show ?case
  proof (cases "k = l")
    case True
    have "\<And>w. w \<in> set (map snd m) \<Longrightarrow> label w \<noteq> l"
    proof -
      fix w assume "w \<in> set (map snd m)"
      then obtain k' where kw: "(k', w) \<in> set m" by auto
      then have "label w = k'" using rest by blast
      moreover have "k' \<in> fst ` set m" using kw by force
      ultimately show "label w \<noteq> l" using fresh True by blast
    qed
    then have "filter (\<lambda>v. label v = l) (map snd m) = []"
      by (simp add: filter_empty_conv)
    moreover have "c = v" using Cons.prems(3) a True by simp
    ultimately show ?thesis using a True lab by simp
  next
    case False
    have "map_of m l = Some c" using Cons.prems(3) a False by simp
    then have "filter (\<lambda>v. label v = l) (map snd m) = [c]"
      using Cons.IH [OF dist rest] by simp
    then show ?thesis using a False lab by simp
  qed
qed

lemma keyed_present:
  assumes "keyed c" and "map_of (completions c) l = Some v"
  shows "filter (\<lambda>v. label v = l) (proposals c) = [v]"
  unfolding proposals_def
  using assms filter_keyed_aux [of "completions c" l v] by (simp add: keyed_def)

text \<open>
  C7. Within one request (any sequence of \<open>reserve\<close> and \<open>add\<close> calls on a fresh
  collector): a label that is reserved before any \<open>add\<close> with that label is the label of
  no final proposal, whatever is added later; and for a label that is never reserved, the
  final proposals hold exactly one completion with that label, the one of the most
  recent \<open>add\<close>.
\<close>

theorem collector_reserve_wins_and_last_add_wins:
  "(ops = pre @ Reserve l # post \<and> (\<forall>v. Add v \<in> set pre \<longrightarrow> label v \<noteq> l)
      \<longrightarrow> (\<forall>v \<in> set (proposals (run_ops ops new_collector)). label v \<noteq> l))
   \<and> (ops = pre' @ Add c # post' \<and> (\<forall>k. Reserve k \<in> set ops \<longrightarrow> k \<noteq> label c)
        \<and> (\<forall>v. Add v \<in> set post' \<longrightarrow> label v \<noteq> label c)
      \<longrightarrow> filter (\<lambda>v. label v = label c) (proposals (run_ops ops new_collector)) = [c])"
proof (intro conjI impI)
  assume h: "ops = pre @ Reserve l # post \<and> (\<forall>v. Add v \<in> set pre \<longrightarrow> label v \<noteq> l)"
  let ?c1 = "run_ops pre new_collector"
  let ?c2 = "run_op (Reserve l) ?c1"
  have a: "map_of (completions ?c1) l = None"
    using untouched [of pre l new_collector] h by (simp add: new_collector_def)
  have b: "map_of (completions ?c2) l = None" using a by (simp add: reserve_def)
  have r: "l \<in> reservedKeys ?c2" by (simp add: reserve_def)
  have "map_of (completions (run_ops post ?c2)) l = None"
    using reserved_frozen [OF r, of post] b by simp
  moreover have "run_ops ops new_collector = run_ops post ?c2"
    using h by (simp add: run_ops_append run_ops_Cons)
  ultimately show "\<forall>v \<in> set (proposals (run_ops ops new_collector)). label v \<noteq> l"
    using keyed_absent [OF keyed_run_ops [OF keyed_new, of ops]] by simp
next
  assume h: "ops = pre' @ Add c # post' \<and> (\<forall>k. Reserve k \<in> set ops \<longrightarrow> k \<noteq> label c)
        \<and> (\<forall>v. Add v \<in> set post' \<longrightarrow> label v \<noteq> label c)"
  let ?c1 = "run_ops pre' new_collector"
  let ?c2 = "run_op (Add c) ?c1"
  have "label c \<notin> reservedKeys ?c1"
    using h by (auto simp: reserved_run_ops new_collector_def)
  then have a: "map_of (completions ?c2) (label c) = Some c"
    by (simp add: add_def map_of_map_set)
  have "map_of (completions (run_ops post' ?c2)) (label c) = Some c"
    using untouched [of post' "label c" ?c2] h a by simp
  moreover have "run_ops ops new_collector = run_ops post' ?c2"
    using h by (simp add: run_ops_append run_ops_Cons)
  ultimately show "filter (\<lambda>v. label v = label c) (proposals (run_ops ops new_collector)) = [c]"
    using keyed_present [OF keyed_run_ops [OF keyed_new, of ops]] by simp
qed


text \<open>
  The sequence add a, reserve b, add b, add a (with a type), add c: b is absent and the
  second a has replaced the first.
\<close>

theorem collector_reserve_wins_and_last_add_wins_witness:
  "[Add (proposal ''a''), Reserve ''b'', Add (proposal ''b''), Add ((proposal ''a'')\<lparr>type_c := Some ''x''\<rparr>), Add (proposal ''c'')]
      = [Add (proposal ''a'')] @ Reserve ''b'' # [Add (proposal ''b''), Add ((proposal ''a'')\<lparr>type_c := Some ''x''\<rparr>), Add (proposal ''c'')]
   \<and> ''b'' \<notin> label ` set (proposals (run_ops
        [Add (proposal ''a''), Reserve ''b'', Add (proposal ''b''), Add ((proposal ''a'')\<lparr>type_c := Some ''x''\<rparr>), Add (proposal ''c'')]
        new_collector))
   \<and> filter (\<lambda>v. label v = ''a'') (proposals (run_ops
        [Add (proposal ''a''), Reserve ''b'', Add (proposal ''b''), Add ((proposal ''a'')\<lparr>type_c := Some ''x''\<rparr>), Add (proposal ''c'')]
        new_collector)) = [(proposal ''a'')\<lparr>type_c := Some ''x''\<rparr>]"
  using collector_reserve_wins_and_last_add_wins
    [of "[Add (proposal ''a''), Reserve ''b'', Add (proposal ''b''), Add ((proposal ''a'')\<lparr>type_c := Some ''x''\<rparr>), Add (proposal ''c'')]"
        "[Add (proposal ''a'')]" "''b''" "[Add (proposal ''b''), Add ((proposal ''a'')\<lparr>type_c := Some ''x''\<rparr>), Add (proposal ''c'')]"
        "[Add (proposal ''a''), Reserve ''b'', Add (proposal ''b'')]" "(proposal ''a'')\<lparr>type_c := Some ''x''\<rparr>" "[Add (proposal ''c'')]"]
  by (auto simp: proposal_def)


section \<open>Properties of the prefix filter\<close>

lemma startsWith_iff: "startsWith s p = (\<exists>rest. s = p @ rest)"
  unfolding startsWith_def
  by (metis append_eq_conv_conj append_take_drop_id)

lemma startsWith_append: "startsWith s (p @ q) \<Longrightarrow> startsWith s p"
  by (auto simp: startsWith_iff)

text \<open>
  C8. For a fixed collector, the labels that pass the filter for a prefix \<open>p @ q\<close> (such as
  "ab") are among those that pass for \<open>p\<close> ("a"); filtering a second time with the
  same prefix changes nothing; and a proposal passes exactly when its label, with the
  quotes stripped, is the prefix followed by some rest, character for character (so the
  match is case-sensitive and anchored at position 0).
\<close>

theorem prefix_filter_monotonic_idempotent:
  "label ` set (resultOptions strip (p @ q) c) \<subseteq> label ` set (resultOptions strip p c)
   \<and> filterByPrefix strip p (filterByPrefix strip p vs) = filterByPrefix strip p vs
   \<and> (v \<in> set (resultOptions strip p c))
       = (v \<in> set (proposals c) \<and> (\<exists>rest. strip (label v) = p @ rest))"
proof (intro conjI)
  show "label ` set (resultOptions strip (p @ q) c) \<subseteq> label ` set (resultOptions strip p c)"
    using startsWith_append by (auto simp: resultOptions_def filterByPrefix_def)
  show "filterByPrefix strip p (filterByPrefix strip p vs) = filterByPrefix strip p vs"
    by (simp add: filterByPrefix_def)
  show "(v \<in> set (resultOptions strip p c))
       = (v \<in> set (proposals c) \<and> (\<exists>rest. strip (label v) = p @ rest))"
    by (auto simp: resultOptions_def filterByPrefix_def startsWith_iff)
qed


text \<open>
  With the labels ab, Ab, "ac" and b: typing \<open>"a\<close> keeps ab and "ac"; Ab fails the
  case-sensitive test.
\<close>

theorem prefix_filter_monotonic_idempotent_witness:
  "label ` set (resultOptions stripSurroundingQuotes (''a'' @ ''b'')
       (run_ops [Add (proposal ''ab''), Add (proposal ''Ab''), Add (proposal (dq # ''ac'' @ [dq])), Add (proposal ''b'')] new_collector))
     \<subseteq> label ` set (resultOptions stripSurroundingQuotes ''a''
       (run_ops [Add (proposal ''ab''), Add (proposal ''Ab''), Add (proposal (dq # ''ac'' @ [dq])), Add (proposal ''b'')] new_collector))
   \<and> map label (resultOptions stripSurroundingQuotes (typedPrefix (dq # ''a''))
       (run_ops [Add (proposal ''ab''), Add (proposal ''Ab''), Add (proposal (dq # ''ac'' @ [dq])), Add (proposal ''b'')] new_collector))
     = [''ab'', dq # ''ac'' @ [dq]]
   \<and> proposal ''Ab'' \<notin> set (resultOptions stripSurroundingQuotes ''a''
       (run_ops [Add (proposal ''ab''), Add (proposal ''Ab''), Add (proposal (dq # ''ac'' @ [dq])), Add (proposal ''b'')] new_collector))"
  using prefix_filter_monotonic_idempotent
    [of stripSurroundingQuotes "''a''" "''b''"
        "run_ops [Add (proposal ''ab''), Add (proposal ''Ab''), Add (proposal (dq # ''ac'' @ [dq])), Add (proposal ''b'')] new_collector"
        "[]" "proposal ''Ab''"]
  by (simp add: resultOptions_def filterByPrefix_def startsWith_def proposals_def run_ops_def
      add_def new_collector_def proposal_def stripSurroundingQuotes_def isQuote_def typedPrefix_def dq_def sq_def)


section \<open>Properties of the reference expander\<close>

lemma map_of_fold_map_set:
  "distinct (map fst es) \<Longrightarrow>
   map_of (fold (\<lambda>kv m. map_set (fst kv) (snd kv) m) es acc) k
     = (case map_of es k of Some v \<Rightarrow> Some v | None \<Rightarrow> map_of acc k)"
proof (induction es arbitrary: acc)
  case Nil
  show ?case by simp
next
  case (Cons e es)
  obtain k' v' where e: "e = (k', v')" by (cases e)
  have d: "distinct (map fst es)" and nin: "k' \<notin> fst ` set es" using Cons.prems e by auto
  have none: "map_of es k' = None" using nin by (simp add: map_of_eq_None_iff)
  show ?case
    using Cons.IH [OF d, of "map_set k' v' acc"] e none
    by (auto simp: map_of_map_set split: option.splits)
qed

lemma map_of_spread_into:
  "distinct (own_keys src) \<Longrightarrow>
   map_of (spread_into acc src) k
     = (case map_of (own_entries src) k of Some v \<Rightarrow> Some v | None \<Rightarrow> map_of acc k)"
  unfolding spread_into_def own_keys_def by (rule map_of_fold_map_set)

lemma map_of_deleteProperty:
  "map_of (deleteProperty k kvs) k' = (if k' = k then None else map_of kvs k')"
  by (induction kvs) (auto simp: deleteProperty_def)

lemma expand_value:
  assumes "typeof_object p" "p \<noteq> JNull" "get p ''$ref'' = Some (JStr ref)" "ref \<noteq> []"
    "getReferenceSchema root ref = Inr (Some target)" "typeof_object target"
  shows "expandSchemaProperty p root
           = Inr (JObj (deleteProperty ''$ref'' (spread_into (spread_into [] p) target)))"
  using assms by (simp add: expandSchemaProperty_def truthy_def)

lemma expand_store:
  assumes "typeof_object (deref st property)" "deref st property \<noteq> JNull"
    "get (deref st property) ''$ref'' = Some (JStr ref)" "ref \<noteq> []"
    "getReferenceSchema (deref st schema) ref = Inr (Some target)" "typeof_object target"
  shows "expandSchemaProperty_store st property schema
           = Inr (Addr (length st),
                  st @ [JObj (deleteProperty ''$ref'' (spread_into (spread_into [] (deref st property)) target))])"
  using assms by (simp add: expandSchemaProperty_store_def truthy_def store_delete_def Let_def)

text \<open>
  C1, as the code has it. For a fragment (an object of the store) whose \<^verbatim>\<open>$ref\<close> is a
  non-empty string that resolves within the root schema to a value of type "object",
  \<open>expandSchemaProperty\<close> returns a newly allocated object and leaves every object
  allocated before as it was; the new object has no \<^verbatim>\<open>$ref\<close> key, and under every other
  key it holds the referenced fragment's value where the referenced fragment has the
  key, and the referencing fragment's value only where it has not: on a key present in
  both, the referenced fragment wins. (The keys of each of the two objects are distinct,
  as the keys of a JavaScript object are.)
\<close>

theorem expandSchemaProperty_merges_referenced_over_referencing:
  assumes "typeof_object (deref st property)" and "deref st property \<noteq> JNull"
    and "get (deref st property) ''$ref'' = Some (JStr ref)" and "ref \<noteq> []"
    and "getReferenceSchema (deref st schema) ref = Inr (Some target)" and "typeof_object target"
    and "distinct (own_keys (deref st property))" and "distinct (own_keys target)"
    and "valid_ref st property" and "valid_ref st schema"
  shows "\<exists>st' kvs.
           expandSchemaProperty_store st property schema = Inr (Addr (length st), st')
         \<and> take (length st) st' = st
         \<and> st' ! length st = JObj kvs
         \<and> expandSchemaProperty (deref st property) (deref st schema) = Inr (JObj kvs)
         \<and> map_of kvs ''$ref'' = None
         \<and> (\<forall>k. k \<noteq> ''$ref'' \<longrightarrow> map_of kvs k = mergedEntry (deref st property) target k)"
proof -
  let ?p = "deref st property"
  let ?kvs = "deleteProperty ''$ref'' (spread_into (spread_into [] ?p) target)"
  have s: "expandSchemaProperty_store st property schema = Inr (Addr (length st), st @ [JObj ?kvs])"
    using assms(1-6) by (rule expand_store)
  have v: "expandSchemaProperty ?p (deref st schema) = Inr (JObj ?kvs)"
    using assms(1-6) by (rule expand_value)
  have "\<And>k. map_of (spread_into [] ?p) k = map_of (own_entries ?p) k"
    using assms(7) by (simp add: map_of_spread_into split: option.splits)
  then have m: "\<And>k. map_of (spread_into (spread_into [] ?p) target) k = mergedEntry ?p target k"
    using assms(8) by (simp add: map_of_spread_into mergedEntry_def split: option.splits)
  have "map_of ?kvs ''$ref'' = None" by (simp add: map_of_deleteProperty)
  moreover have "\<forall>k. k \<noteq> ''$ref'' \<longrightarrow> map_of ?kvs k = mergedEntry ?p target k"
    using m by (simp add: map_of_deleteProperty)
  ultimately show ?thesis using s v by simp
qed

lemma refRoot_target:
  "getReferenceSchema refRoot ''#/definitions/X'' = Inr (Some (JObj [(''type'', JStr ''string''), (''default'', JStr ''hi'')]))"
  by (simp add: getReferenceSchema_def refRoot_def refStep_def get_def typeof_object_def)

text \<open>
  The claim C1 gives the referencing fragment precedence. The fragment says
  \<^verbatim>\<open>"type": "number"\<close>, its target \<^verbatim>\<open>"type": "string"\<close>, and the expansion says
  \<^verbatim>\<open>"type": "string"\<close>.
\<close>

theorem expandSchemaProperty_referencing_wins_counterexample:
  "get refFragment ''type'' = Some (JStr ''number'')
   \<and> getReferenceSchema refRoot ''#/definitions/X''
       = Inr (Some (JObj [(''type'', JStr ''string''), (''default'', JStr ''hi'')]))
   \<and> expandSchemaProperty refFragment refRoot
       = Inr (JObj [(''type'', JStr ''string''), (''description'', JStr ''d''), (''default'', JStr ''hi'')])"
  by (simp add: refRoot_target expandSchemaProperty_def refFragment_def get_def typeof_object_def truthy_def
      spread_into_def own_entries_def deleteProperty_def)

text \<open>
  The same fragment in a store: the root at address 0 and the fragment at address 1 stay,
  the expansion is the new object at address 2.
\<close>

theorem expandSchemaProperty_merges_referenced_over_referencing_witness:
  "expandSchemaProperty_store [refRoot, refFragment] (Addr 1) (Addr 0)
     = Inr (Addr 2, [refRoot, refFragment,
          JObj [(''type'', JStr ''string''), (''description'', JStr ''d''), (''default'', JStr ''hi'')]])
   \<and> mergedEntry refFragment (JObj [(''type'', JStr ''string''), (''default'', JStr ''hi'')]) ''type''
       = Some (JStr ''string'')
   \<and> mergedEntry refFragment (JObj [(''type'', JStr ''string''), (''default'', JStr ''hi'')]) ''description''
       = Some (JStr ''d'')"
proof -
  have "\<exists>st' kvs.
           expandSchemaProperty_store [refRoot, refFragment] (Addr 1) (Addr 0)
             = Inr (Addr (length [refRoot, refFragment]), st')
         \<and> take (length [refRoot, refFragment]) st' = [refRoot, refFragment]
         \<and> st' ! length [refRoot, refFragment] = JObj kvs
         \<and> expandSchemaProperty (deref [refRoot, refFragment] (Addr 1)) (deref [refRoot, refFragment] (Addr 0))
             = Inr (JObj kvs)
         \<and> map_of kvs ''$ref'' = None
         \<and> (\<forall>k. k \<noteq> ''$ref'' \<longrightarrow> map_of kvs k
               = mergedEntry (deref [refRoot, refFragment] (Addr 1))
                   (JObj [(''type'', JStr ''string''), (''default'', JStr ''hi'')]) k)"
    by (rule expandSchemaProperty_merges_referenced_over_referencing [where ref = "''#/definitions/X''"])
       (simp_all add: deref_def refRoot_target refFragment_def typeof_object_def get_def
          own_keys_def own_entries_def valid_ref_def)
  then show ?thesis
    by (simp add: expandSchemaProperty_store_def deref_def refRoot_target refFragment_def get_def
        typeof_object_def truthy_def spread_into_def own_entries_def deleteProperty_def store_delete_def
        mergedEntry_def Let_def)
qed

section \<open>Properties of the schema pointer resolver\<close>

lemma parentPointer_strips_last_segment:
  "CHR ''/'' \<notin> set seg \<Longrightarrow> parentPointer (pre @ CHR ''/'' # seg) = pre @ ''/''"
proof -
  assume a: "CHR ''/'' \<notin> set seg"
  have "dropWhile (\<lambda>c. c \<noteq> CHR ''/'') (rev seg @ CHR ''/'' # rev pre) = CHR ''/'' # rev pre"
    using a by (subst dropWhile_append2) auto
  then show ?thesis by (simp add: parentPointer_def)
qed

lemma parentPointer_no_slash: "CHR ''/'' \<notin> set p \<Longrightarrow> parentPointer p = p"
  by (simp add: parentPointer_def)

text \<open>
  C5, as the code has it. For a pointer that ends in a segment \<open>seg\<close> after its last
  slash, \<open>getSchemas\<close> goes on with the parent pointer (the segment stripped, the slash
  kept) and what the parent pointer resolves to exactly when the first resolution
  yields \<^verbatim>\<open>undefined\<close> or a falsy value, a node named "UnknownPropertyError", a node that
  carries a truthy \<^verbatim>\<open>enum\<close> (whatever else it carries), or a node whose \<^verbatim>\<open>type\<close> is the string
  "undefined"; otherwise it keeps the pointer and the first resolution. The pointer is
  resolved at most twice.
\<close>

theorem getSchemas_parent_pointer_fallback:
  assumes "CHR ''/'' \<notin> set seg"
  shows "resolvePointer h this_schema (pre @ CHR ''/'' # seg)
     = (if getSchema h this_schema (pre @ CHR ''/'' # seg) = None
           \<or> (\<exists>v. getSchema h this_schema (pre @ CHR ''/'' # seg) = Some v
                  \<and> (\<not> truthy v
                      \<or> get v ''name'' = Some (JStr ''UnknownPropertyError'')
                      \<or> (\<exists>e. get v ''enum'' = Some e \<and> truthy e)
                      \<or> get v ''type'' = Some (JStr ''undefined'')))
        then (pre @ ''/'', getSchema h this_schema (pre @ ''/''))
        else (pre @ CHR ''/'' # seg, getSchema h this_schema (pre @ CHR ''/'' # seg)))"
proof -
  have "needsParentPointer (getSchema h this_schema (pre @ CHR ''/'' # seg))
      = (getSchema h this_schema (pre @ CHR ''/'' # seg) = None
           \<or> (\<exists>v. getSchema h this_schema (pre @ CHR ''/'' # seg) = Some v
                  \<and> (\<not> truthy v
                      \<or> get v ''name'' = Some (JStr ''UnknownPropertyError'')
                      \<or> (\<exists>e. get v ''enum'' = Some e \<and> truthy e)
                      \<or> get v ''type'' = Some (JStr ''undefined''))))"
    by (auto simp: needsParentPointer_def truthy_opt_def split: option.splits)
  then show ?thesis
    unfolding resolvePointer_def parentPointer_strips_last_segment [OF assms, of pre]
    by (simp only:)
qed

text \<open>
  The claim C5 names a bare enum-only node as the trigger. The node at \<^verbatim>\<open>/colour\<close> has a
  \<^verbatim>\<open>type\<close> beside its \<^verbatim>\<open>enum\<close>, so none of the stated triggers applies to it, and yet the
  code falls back to the parent pointer \<^verbatim>\<open>/\<close> and answers with the root schema.
\<close>

theorem getSchemas_fallback_bare_enum_counterexample:
  "getSchema colourHost colourRoot ''/colour'' = Some colourNode
   \<and> \<not> statedFallbackTrigger (Some colourNode)
   \<and> resolvePointer colourHost colourRoot ''/colour'' = (''/'', None)
   \<and> getSchemas colourHost colourRoot colourRoot ''/colour'' = Inr [colourRoot]"
  by (simp add: colourHost_def colourNode_def statedFallbackTrigger_def bareEnumOnly_def truthy_def
      get_def resolvePointer_def needsParentPointer_def truthy_opt_def parentPointer_def getSchemas_def)

text \<open>The pointer \<^verbatim>\<open>/colour\<close> of that host: empty prefix, segment \<^verbatim>\<open>colour\<close>.\<close>

theorem getSchemas_parent_pointer_fallback_witness:
  "CHR ''/'' \<notin> set ''colour''
   \<and> resolvePointer colourHost colourRoot ('''' @ CHR ''/'' # ''colour'') = ('''' @ ''/'', None)"
  using getSchemas_parent_pointer_fallback [of "''colour''" colourHost colourRoot "''''"]
  by (simp add: colourHost_def colourNode_def get_def truthy_def)

section \<open>Properties of the snippet text compiler\<close>

lemma plainText_nonempty: "t \<noteq> [] \<Longrightarrow> getInsertTextForPlainText t \<noteq> []"
  by (cases t) (auto simp: getInsertTextForPlainText_def)

lemma guessed_nonempty: "getInsertTextForGuessedValue v [] \<noteq> []"
proof (cases v)
  case (JArr xs)
  have "stringify_tab (JArr xs) \<noteq> []" by (simp add: stringify_tab_def)
  then show ?thesis using JArr
    by (simp add: getInsertTextForGuessedValue_def getInsertTextForValue_def Let_def plainText_nonempty)
next
  case (JObj kvs)
  have "stringify_tab (JObj kvs) \<noteq> []" by (simp add: stringify_tab_def)
  then show ?thesis using JObj
    by (simp add: getInsertTextForGuessedValue_def getInsertTextForValue_def Let_def plainText_nonempty)
qed (simp_all add: getInsertTextForGuessedValue_def Let_def)

lemma guessFrom_count:
  assumes "guessFromEnum ps (None, 0) = Inr vn1"
  shows "snd (guessFromExamples ps (guessFromConst ps vn1)) = literalCandidates ps"
  using assms
  by (auto simp: guessFromEnum_def guessFromConst_def guessFromExamples_def literalCandidates_def
      split: option.splits json.splits if_splits list.splits)

lemma guessFromEnum_ok:
  "enumIsArrayOrAbsent ps \<Longrightarrow> \<exists>vn1. guessFromEnum ps (None, 0) = Inr vn1"
  by (auto simp: guessFromEnum_def enumIsArrayOrAbsent_def isArray_def split: option.splits json.splits)

lemma insertValue_ambiguous:
  assumes "typeof_object ps" "ps \<noteq> JNull" "get ps ''default'' = None"
    "enumIsArrayOrAbsent ps" "literalCandidates ps > 1"
  shows "insertValue isJSON5 (Some ps) = Inr ''#{}''"
proof -
  obtain vn1 where e: "guessFromEnum ps (None, 0) = Inr vn1"
    using guessFromEnum_ok [OF assms(4)] by blast
  let ?vn3 = "guessFromExamples ps (guessFromConst ps vn1)"
  have n: "snd ?vn3 = literalCandidates ps" using e by (rule guessFrom_count)
  then have "guessValue isJSON5 (Some ps) = Inr ?vn3"
    using assms e by (simp add: guessValue_def Let_def)
  then show ?thesis using n assms(5)
    by (cases ?vn3) (auto simp: insertValue_def split: option.splits)
qed

lemma insertValue_default:
  assumes "typeof_object ps" "ps \<noteq> JNull" "get ps ''default'' = Some d"
  shows "insertValue isJSON5 (Some ps) = Inr (getInsertTextForGuessedValue d [])"
  using assms guessed_nonempty [of d] by (simp add: guessValue_def insertValue_def)

text \<open>
  C2, as the code has it. Let the property schema, after reference expansion, be an
  object, and let a value be asked for (\<open>addValue\<close>). If it declares no \<^verbatim>\<open>default\<close> and
  \<^verbatim>\<open>enum\<close>, \<^verbatim>\<open>const\<close> and \<^verbatim>\<open>examples\<close> together supply more than one candidate, the value
  placeholder is the empty \<^verbatim>\<open>#{}\<close>. If it declares a \<^verbatim>\<open>default\<close>, the placeholder is the
  rendering of that default, whatever \<^verbatim>\<open>enum\<close>, \<^verbatim>\<open>const\<close> and \<^verbatim>\<open>examples\<close> hold: the branch
  that reads them is the \<^verbatim>\<open>else\<close> of the test for a default.
\<close>

theorem getInsertTextForProperty_default_wins_else_ambiguity_empties:
  assumes "expandIfPresent this_schema propertySchema = Inr (Some ps)"
    and "typeof_object ps" and "ps \<noteq> JNull"
  shows "(get ps ''default'' = None \<and> enumIsArrayOrAbsent ps \<and> literalCandidates ps > 1
            \<longrightarrow> getInsertTextForProperty this_schema isJSON5 key True rawWord propertySchema
                  = Inr (keyText isJSON5 rawWord key @ '': '' @ ''#{}''))
       \<and> (\<forall>d. get ps ''default'' = Some d
            \<longrightarrow> getInsertTextForProperty this_schema isJSON5 key True rawWord propertySchema
                  = Inr (keyText isJSON5 rawWord key @ '': '' @ getInsertTextForGuessedValue d []))"
  using assms insertValue_ambiguous [of ps isJSON5] insertValue_default [of ps _ isJSON5]
  by (auto simp: getInsertTextForProperty_def keyText_def Let_def)

text \<open>
  The claim C2 wants the empty placeholder whenever more than one source could
  contribute. With a \<^verbatim>\<open>default\<close> of 1 and the \<^verbatim>\<open>enum\<close> [1, 2] the snippet for the key \<^verbatim>\<open>k\<close> is
  \<^verbatim>\<open>"k": ${1}\<close>, pre-filled with the default.
\<close>

theorem getInsertTextForProperty_default_with_enum_counterexample:
  "literalCandidates defaultWithEnum = 2
   \<and> get defaultWithEnum ''default'' = Some (JNum 1)
   \<and> getInsertTextForProperty (JObj []) False ''k'' True [] (Some defaultWithEnum)
       = Inr (dq # ''k'' @ [dq] @ '': ${1}'')
   \<and> dq # ''k'' @ [dq] @ '': ${1}'' \<noteq> dq # ''k'' @ [dq] @ '': #{}''"
  by (simp add: defaultWithEnum_def literalCandidates_def get_def getInsertTextForProperty_def
      expandIfPresent_def truthy_def expandSchemaProperty_def typeof_object_def insertValue_def
      guessValue_def getInsertTextForGuessedValue_def stringify_def show_int_def show_nat.simps digit_def)

text \<open>
  Both halves at concrete schemas: two candidates without a default give \<^verbatim>\<open>"k": #{}\<close>,
  and the default of the schema above is rendered.
\<close>

theorem getInsertTextForProperty_default_wins_else_ambiguity_empties_witness:
  "expandIfPresent (JObj []) (Some enumWithConst) = Inr (Some enumWithConst)
   \<and> literalCandidates enumWithConst = 2
   \<and> getInsertTextForProperty (JObj []) False ''k'' True [] (Some enumWithConst)
       = Inr (dq # ''k'' @ [dq] @ '': #{}'')
   \<and> expandIfPresent (JObj []) (Some defaultWithEnum) = Inr (Some defaultWithEnum)
   \<and> getInsertTextForProperty (JObj []) False ''k'' True [] (Some defaultWithEnum)
       = Inr (dq # ''k'' @ [dq] @ '': '' @ getInsertTextForGuessedValue (JNum 1) [])"
proof -
  have e1: "expandIfPresent (JObj []) (Some enumWithConst) = Inr (Some enumWithConst)"
    by (simp add: expandIfPresent_def enumWithConst_def truthy_def expandSchemaProperty_def
        typeof_object_def get_def)
  have e2: "expandIfPresent (JObj []) (Some defaultWithEnum) = Inr (Some defaultWithEnum)"
    by (simp add: expandIfPresent_def defaultWithEnum_def truthy_def expandSchemaProperty_def
        typeof_object_def get_def)
  have c: "literalCandidates enumWithConst = 2"
    by (simp add: literalCandidates_def enumWithConst_def get_def)
  have a: "getInsertTextForProperty (JObj []) False ''k'' True [] (Some enumWithConst)
             = Inr (keyText False [] ''k'' @ '': '' @ ''#{}'')"
    using getInsertTextForProperty_default_wins_else_ambiguity_empties
            [OF e1, of False "''k''" "[]"] c
    by (simp add: enumWithConst_def typeof_object_def get_def enumIsArrayOrAbsent_def isArray_def)
  have b: "getInsertTextForProperty (JObj []) False ''k'' True [] (Some defaultWithEnum)
             = Inr (keyText False [] ''k'' @ '': '' @ getInsertTextForGuessedValue (JNum 1) [])"
    using getInsertTextForProperty_default_wins_else_ambiguity_empties
            [OF e2, of False "''k''" "[]"]
    by (simp add: defaultWithEnum_def typeof_object_def get_def)
  show ?thesis using e1 e2 c a b by (simp add: keyText_def)
qed

section \<open>Bounds on the recursive traversals\<close>

lemma calls_bound:
  "addDefaultValueCompletions_calls schema arrayDepth \<le> Suc (5 - arrayDepth)"
proof (induction schema arrayDepth rule: addDefaultValueCompletions_calls.induct)
  case (1 schema arrayDepth)
  show ?case
  proof (cases "schema \<noteq> JNull \<and> recursesIntoItems schema arrayDepth")
    case True
    then have d: "arrayDepth < 5" by (simp add: recursesIntoItems_def)
    have "addDefaultValueCompletions_calls (itemsOf schema) (arrayDepth + 1) \<le> Suc (5 - (arrayDepth + 1))"
      using "1.IH" True by simp
    then show ?thesis
      using True d by (subst addDefaultValueCompletions_calls.simps) simp
  next
    case False
    then show ?thesis by (subst addDefaultValueCompletions_calls.simps) auto
  qed
qed

lemma no_recursion_at_5: "\<not> recursesIntoItems schema 5"
  by (simp add: recursesIntoItems_def)

lemma map_set_fresh: "k \<notin> fst ` set m \<Longrightarrow> map_set k v m = m @ [(k, v)]"
  by (induction m) auto

lemma map_set_present: "distinct (map fst m) \<Longrightarrow> (k, v) \<in> set m \<Longrightarrow> map_set k v m = m"
  by (induction m) force+

lemma fold_map_set_fresh:
  "distinct (map fst es) \<Longrightarrow> fst ` set es \<inter> fst ` set acc = {} \<Longrightarrow>
   fold (\<lambda>kv m. map_set (fst kv) (snd kv) m) es acc = acc @ es"
proof (induction es arbitrary: acc)
  case Nil
  show ?case by simp
next
  case (Cons e es)
  have f: "fst e \<notin> fst ` set acc" using Cons.prems(2) by auto
  have "fst ` set es \<inter> fst ` set (acc @ [(fst e, snd e)]) = {}"
    using Cons.prems by auto
  then show ?case
    using Cons.IH [of "acc @ [(fst e, snd e)]"] Cons.prems(1) f by (simp add: map_set_fresh)
qed

lemma fold_map_set_present:
  "distinct (map fst m) \<Longrightarrow> set es \<subseteq> set m \<Longrightarrow>
   fold (\<lambda>kv m. map_set (fst kv) (snd kv) m) es m = m"
  by (induction es) (simp_all add: map_set_present)

lemma spread_self:
  "distinct (map fst kvs) \<Longrightarrow> spread_into (spread_into [] (JObj kvs)) (JObj kvs) = kvs"
  by (simp add: spread_into_def own_entries_def fold_map_set_fresh fold_map_set_present)

text \<open>
  C9. The recursions of the traversal are bounded, whatever the schema.
  \<open>addDefaultValueCompletions\<close> started at depth 0 runs at most six times (depths 0 to 5):
  at depth 5 it never descends into \<^verbatim>\<open>items\<close> and returns with the proposals of that
  level. \<open>addSchemaValueCompletions\<close> descends into the members of \<^verbatim>\<open>allOf\<close>, \<^verbatim>\<open>anyOf\<close> and
  \<^verbatim>\<open>oneOf\<close>, which are parts of the schema value. Reference resolution is one walk along
  the segments of the \<^verbatim>\<open>$ref\<close> string, and the target's own \<^verbatim>\<open>$ref\<close> is never followed: a
  fragment whose \<^verbatim>\<open>$ref\<close> resolves to the fragment itself comes back after that one lookup
  as the fragment without its \<^verbatim>\<open>$ref\<close> key, nothing of it resolved any further.
\<close>

theorem recursive_traversal_is_bounded:
  "addDefaultValueCompletions_calls schema 0 \<le> 6
   \<and> \<not> recursesIntoItems schema 5
   \<and> (schema \<noteq> JNull \<longrightarrow>
        addDefaultValueCompletions uniq schema collector 5
          = Inr (addOwnDefaults uniq schema 5 collector))
   \<and> (distinct (map fst kvs) \<and> map_of kvs ''$ref'' = Some (JStr ref) \<and> ref \<noteq> []
        \<and> getReferenceSchema root ref = Inr (Some (JObj kvs)) \<longrightarrow>
        expandSchemaProperty (JObj kvs) root = Inr (JObj (deleteProperty ''$ref'' kvs)))"
proof (intro conjI impI)
  show "addDefaultValueCompletions_calls schema 0 \<le> 6"
    using calls_bound [of schema 0] by simp
  show "\<not> recursesIntoItems schema 5" by (rule no_recursion_at_5)
  show "addDefaultValueCompletions uniq schema collector 5
          = Inr (addOwnDefaults uniq schema 5 collector)" if "schema \<noteq> JNull"
    using that by (subst addDefaultValueCompletions.simps) (simp add: no_recursion_at_5)
  show "expandSchemaProperty (JObj kvs) root = Inr (JObj (deleteProperty ''$ref'' kvs))"
    if h: "distinct (map fst kvs) \<and> map_of kvs ''$ref'' = Some (JStr ref) \<and> ref \<noteq> []
        \<and> getReferenceSchema root ref = Inr (Some (JObj kvs))"
    using h by (simp add: expandSchemaProperty_def typeof_object_def get_def truthy_def spread_self)
qed

theorem recursive_traversal_is_bounded_witness:
  "addDefaultValueCompletions_calls (nestedItems 7) 0 = 6
   \<and> addDefaultValueCompletions False (nestedItems 7) new_collector 0 = Inr new_collector
   \<and> nestedItems 7 \<noteq> JNull
   \<and> addDefaultValueCompletions False (nestedItems 7) new_collector 5 = Inr new_collector
   \<and> map fst (completions (case addDefaultValueCompletions False (nestedItems 5) new_collector 0 of
         Inr c \<Rightarrow> c | Inl e \<Rightarrow> new_collector)) = [''[[[[[0]]]]]'']
   \<and> distinct (map fst selfRefNode)
   \<and> getReferenceSchema selfRefRoot ''#/definitions/A'' = Inr (Some (JObj selfRefNode))
   \<and> expandSchemaProperty (JObj selfRefNode) selfRefRoot = Inr (JObj [(''type'', JStr ''string'')])"
proof -
  have r: "getReferenceSchema selfRefRoot ''#/definitions/A'' = Inr (Some (JObj selfRefNode))"
    by (simp add: getReferenceSchema_def selfRefRoot_def refStep_def get_def typeof_object_def)
  have n: "nestedItems 7 \<noteq> JNull" by code_simp
  have o: "addOwnDefaults False (nestedItems 7) 5 new_collector = new_collector" by code_simp
  have i: "addDefaultValueCompletions False (nestedItems 7) new_collector 5 = Inr new_collector
      \<and> expandSchemaProperty (JObj selfRefNode) selfRefRoot = Inr (JObj (deleteProperty ''$ref'' selfRefNode))"
    using recursive_traversal_is_bounded
            [of "nestedItems 7" False new_collector selfRefNode "''#/definitions/A''" selfRefRoot] r n o
    by (simp add: selfRefNode_def)
  have c: "addDefaultValueCompletions_calls (nestedItems 7) 0 = 6" by code_simp
  have d: "addDefaultValueCompletions False (nestedItems 7) new_collector 0 = Inr new_collector"
    by code_simp
  have f: "map fst (completions (case addDefaultValueCompletions False (nestedItems 5) new_collector 0 of
         Inr c \<Rightarrow> c | Inl e \<Rightarrow> new_collector)) = [''[[[[[0]]]]]'']"
    by code_simp
  show ?thesis using r n i c d f by (simp add: selfRefNode_def deleteProperty_def)
qed

section \<open>Properties of the value completions\<close>

lemma sum_case_id: "(case x of Inl e \<Rightarrow> Inl e | Inr y \<Rightarrow> Inr y) = x"
  by (cases x) simp_all

lemma patternLoop_all_matches:
  "patternLoop h pp parentKey pats (m, st)
     = (case foldE (patternContribution pp)
               (filter (\<lambda>pattern. regexTest h (extendedRegExp h pattern) parentKey) pats) st of
          Inl e \<Rightarrow> Inl e
        | Inr st' \<Rightarrow>
            Inr (m \<or> filter (\<lambda>pattern. regexTest h (extendedRegExp h pattern) parentKey) pats \<noteq> [], st'))"
proof (induction pats arbitrary: m st)
  case Nil
  show ?case by simp
next
  case (Cons p pats)
  show ?case
  proof (cases "regexTest h (extendedRegExp h p) parentKey")
    case False
    then show ?thesis using Cons.IH [of m st] by (simp split: sum.splits)
  next
    case True
    show ?thesis
    proof (cases "patternContribution pp p st")
      case (Inl e)
      then show ?thesis using True
        by (auto simp: patternContribution_def split: option.splits if_splits)
    next
      case (Inr st')
      then show ?thesis using True Cons.IH [of True st'] Cons.IH [of True st]
        by (auto simp: patternContribution_def split: option.splits if_splits sum.splits)
    qed
  qed
qed

text \<open>
  A key that \<^verbatim>\<open>properties\<close> does not have as an own property but inherits (\<^verbatim>\<open>toString\<close>,
  \<^verbatim>\<open>constructor\<close>, ...) counts as matched and contributes nothing: neither the patterns nor
  \<^verbatim>\<open>additionalProperties\<close> are consulted.
\<close>

lemma propertyPart_inherited_member:
  assumes "s \<noteq> JNull" and "exactProperty s parentKey = Inr MatchedInherited"
  shows "propertyPart h (Some parentKey) s st = Inr st"
  using assms by (simp add: propertyPart_def split: option.splits)

lemma propertyPart_inherited_member_toString:
  "exactProperty indexPatSchema ''toString'' = Inr MatchedInherited
   \<and> matchingPatterns caretHost indexPatterns ''toString'' = [''^t'']
   \<and> valueLabels (propertyPart caretHost (Some ''toString'') indexPatSchema ({}, new_collector))
       = Some []
   \<and> valueLabels (getValueCompletions caretHost indexPatSchema indexPatSchema
                     (propertyValueCtx ''toString'') {} new_collector) = Some []
   \<and> valueLabels (getValueCompletions caretHost indexPatSchema indexPatSchema
                     (propertyValueCtx ''tx'') {} new_collector) = Some [dq # ''z'' @ [dq]]"
  by code_simp

text \<open>
  C3, as the code has it. For a named property whose key the read
  \<^verbatim>\<open>s.properties[parentKey]\<close> answers with nothing truthy (so the key is neither a truthy own
  property of \<^verbatim>\<open>properties\<close> nor a name that \<^verbatim>\<open>properties\<close> inherits), and a schema with
  \<^verbatim>\<open>patternProperties\<close>: every pattern that matches the key contributes the value
  completions of its schema, one after the other in the order in which \<^verbatim>\<open>Object.keys\<close> lists
  the patterns (integer-like patterns first in ascending order, then the others as
  written; the loop has no \<^verbatim>\<open>break\<close>); \<^verbatim>\<open>additionalProperties\<close> is consulted only when no
  pattern matched.
\<close>

theorem patternProperties_every_match_contributes:
  assumes "s \<noteq> JNull" and "exactProperty s parentKey = Inr NoMatch"
    and "get s ''patternProperties'' = Some pp" and "truthy pp"
  shows "propertyPart h (Some parentKey) s st
     = (case foldE (patternContribution pp) (matchingPatterns h pp parentKey) st of
          Inl e \<Rightarrow> Inl e
        | Inr st' \<Rightarrow>
            if matchingPatterns h pp parentKey \<noteq> [] then Inr st'
            else (case get s ''additionalProperties'' of
                    None \<Rightarrow> Inr st'
                  | Some additionalProperties \<Rightarrow>
                      if truthy additionalProperties
                      then addSchemaValueCompletions False additionalProperties st'
                      else Inr st'))"
  using assms
  by (auto simp: propertyPart_def patternLoop_all_matches matchingPatterns_def
      split: sum.splits option.splits)

text \<open>
  The claim C3 lets only the first matching pattern contribute. For the key \<^verbatim>\<open>abc\<close> the
  patterns \<^verbatim>\<open>^a\<close> and \<^verbatim>\<open>^ab\<close> both match, in that order, and the proposals are those of
  both: "x" of the first and "y" of the second.
\<close>

theorem patternProperties_first_match_only_counterexample:
  "matchingPatterns caretHost
       (JObj [(''^a'', JObj [(''enum'', JArr [JStr ''x''])]),
              (''^ab'', JObj [(''enum'', JArr [JStr ''y''])]),
              (''^z'', JObj [(''enum'', JArr [JStr ''z''])])]) ''abc'' = [''^a'', ''^ab'']
   \<and> valueLabels (getValueCompletions caretHost patSchema patSchema (propertyValueCtx ''abc'') {} new_collector)
       = Some [dq # ''x'' @ [dq], dq # ''y'' @ [dq]]"
  by code_simp

text \<open>
  The same schema and key through the theorem; the key \<^verbatim>\<open>q\<close>, which no pattern matches and
  \<^verbatim>\<open>additionalProperties\<close> answers; and the key \<^verbatim>\<open>a1\<close> of the schema whose pattern \<^verbatim>\<open>1\<close> is
  written after \<^verbatim>\<open>^a\<close> and contributes before it.
\<close>

theorem patternProperties_every_match_contributes_witness:
  "patSchema \<noteq> JNull \<and> exactProperty patSchema ''abc'' = Inr NoMatch
   \<and> truthy (JObj [(''^a'', JObj [(''enum'', JArr [JStr ''x''])]),
              (''^ab'', JObj [(''enum'', JArr [JStr ''y''])]),
              (''^z'', JObj [(''enum'', JArr [JStr ''z''])])])
   \<and> valueLabels (propertyPart caretHost (Some ''abc'') patSchema ({}, new_collector))
       = Some [dq # ''x'' @ [dq], dq # ''y'' @ [dq]]
   \<and> valueLabels (propertyPart caretHost (Some ''q'') patSchema ({}, new_collector))
       = Some [dq # ''w'' @ [dq]]
   \<and> indexPatSchema \<noteq> JNull \<and> exactProperty indexPatSchema ''a1'' = Inr NoMatch
   \<and> truthy indexPatterns
   \<and> objectKeys indexPatterns = [''1'', ''^a'', ''^t'']
   \<and> matchingPatterns caretHost indexPatterns ''a1'' = [''1'', ''^a'']
   \<and> valueLabels (propertyPart caretHost (Some ''a1'') indexPatSchema ({}, new_collector))
       = Some [dq # ''y'' @ [dq], dq # ''x'' @ [dq]]"
proof -
  let ?pp = "JObj [(''^a'', JObj [(''enum'', JArr [JStr ''x''])]),
              (''^ab'', JObj [(''enum'', JArr [JStr ''y''])]),
              (''^z'', JObj [(''enum'', JArr [JStr ''z''])])]"
  have a: "patSchema \<noteq> JNull" by (simp add: patSchema_def)
  have b: "exactProperty patSchema ''abc'' = Inr NoMatch" by code_simp
  have b': "exactProperty patSchema ''q'' = Inr NoMatch" by code_simp
  have c: "get patSchema ''patternProperties'' = Some ?pp" by code_simp
  have d: "truthy ?pp" by (simp add: truthy_def)
  have m: "matchingPatterns caretHost ?pp ''abc'' = [''^a'', ''^ab'']" by code_simp
  have m': "matchingPatterns caretHost ?pp ''q'' = []" by code_simp
  have f: "valueLabels (foldE (patternContribution ?pp) [''^a'', ''^ab''] ({}, new_collector))
             = Some [dq # ''x'' @ [dq], dq # ''y'' @ [dq]]"
    by code_simp
  have g: "valueLabels (addSchemaValueCompletions False (JObj [(''enum'', JArr [JStr ''w''])]) ({}, new_collector))
             = Some [dq # ''w'' @ [dq]]"
    by code_simp
  have ap: "get patSchema ''additionalProperties'' = Some (JObj [(''enum'', JArr [JStr ''w''])])"
    by code_simp
  define F where "F = foldE (patternContribution ?pp) [''^a'', ''^ab''] ({}, new_collector)"
  define G where "G = addSchemaValueCompletions False (JObj [(''enum'', JArr [JStr ''w''])]) ({}, new_collector)"
  note t1 = patternProperties_every_match_contributes
              [OF a b c d, of caretHost "({}, new_collector)", unfolded m, folded F_def]
  have "propertyPart caretHost (Some ''abc'') patSchema ({}, new_collector) = F"
    using t1 by (cases F) simp_all
  then have 1: "valueLabels (propertyPart caretHost (Some ''abc'') patSchema ({}, new_collector))
       = Some [dq # ''x'' @ [dq], dq # ''y'' @ [dq]]"
    using f by (simp only: F_def)
  note t2 = patternProperties_every_match_contributes
              [OF a b' c d, of caretHost "({}, new_collector)", unfolded m' ap]
  have "propertyPart caretHost (Some ''q'') patSchema ({}, new_collector) = G"
    using t2 by (simp add: truthy_def G_def)
  then have 2: "valueLabels (propertyPart caretHost (Some ''q'') patSchema ({}, new_collector))
       = Some [dq # ''w'' @ [dq]]"
    using g by (simp only: G_def)
  have ia: "indexPatSchema \<noteq> JNull" by (simp add: indexPatSchema_def)
  have ib: "exactProperty indexPatSchema ''a1'' = Inr NoMatch" by code_simp
  have ic: "get indexPatSchema ''patternProperties'' = Some indexPatterns" by code_simp
  have id: "truthy indexPatterns" by (simp add: truthy_def indexPatterns_def)
  have ik: "objectKeys indexPatterns = [''1'', ''^a'', ''^t'']" by code_simp
  have im: "matchingPatterns caretHost indexPatterns ''a1'' = [''1'', ''^a'']" by code_simp
  have il: "valueLabels (foldE (patternContribution indexPatterns) [''1'', ''^a''] ({}, new_collector))
             = Some [dq # ''y'' @ [dq], dq # ''x'' @ [dq]]"
    by code_simp
  define H where "H = foldE (patternContribution indexPatterns) [''1'', ''^a''] ({}, new_collector)"
  note t3 = patternProperties_every_match_contributes
              [OF ia ib ic id, of caretHost "({}, new_collector)", unfolded im, folded H_def]
  have "propertyPart caretHost (Some ''a1'') indexPatSchema ({}, new_collector) = H"
    using t3 by (cases H) simp_all
  then have 3: "valueLabels (propertyPart caretHost (Some ''a1'') indexPatSchema ({}, new_collector))
       = Some [dq # ''y'' @ [dq], dq # ''x'' @ [dq]]"
    using il by (simp only: H_def)
  show ?thesis using a b d 1 2 ia ib id ik im 3 by simp
qed

declare contributedTypes.simps [simp del]

section \<open>Types and the boolean and null literals\<close>

lemma collectTypes_ownTypes:
  "collectTypes schema types = Inr types' \<Longrightarrow> types' = types \<union> ownTypes schema"
  by (auto simp: collectTypes_def ownTypes_def split: if_splits option.splits json.splits)

lemma addEnum_not_null: "addEnumValueCompletions uniq schema c = Inr c' \<Longrightarrow> schema \<noteq> JNull"
  by (auto simp: addEnumValueCompletions_def)

lemma types_after:
  "addSchemaValueCompletions uniq schema st = Inr st' \<Longrightarrow> fst st' = fst st \<union> contributedTypes schema"
  and "addSchemaValueCompletions_each uniq ss st = Inr st'
        \<Longrightarrow> fst st' = fst st \<union> \<Union> (set (map contributedTypes ss))"
proof (induction uniq schema st and uniq ss st arbitrary: st' and st'
       rule: addSchemaValueCompletions_addSchemaValueCompletions_each.induct)
  case (1 uniq schema st)
  note r = "1.prems"
  show ?case
  proof (cases "typeof_object schema")
    case False
    then show ?thesis using r
      by (simp add: addSchemaValueCompletions.simps contributedTypes.simps)
  next
    case True
    from r True obtain c1 where c1: "addEnumValueCompletions uniq schema (snd st) = Inr c1"
      by (auto simp: addSchemaValueCompletions.simps split: sum.splits)
    from r True c1 obtain c2 where c2: "addDefaultValueCompletions uniq schema c1 0 = Inr c2"
      by (auto simp: addSchemaValueCompletions.simps split: sum.splits)
    from r True c1 c2 obtain types where ty: "collectTypes schema (fst st) = Inr types"
      by (auto simp: addSchemaValueCompletions.simps split: sum.splits)
    from r True c1 c2 ty obtain st1 where
      s1: "addSchemaValueCompletions_each uniq (branchesOf schema ''allOf'') (types, c2) = Inr st1"
      by (auto simp: addSchemaValueCompletions.simps split: sum.splits)
    from r True c1 c2 ty s1 obtain st2 where
      s2: "addSchemaValueCompletions_each uniq (branchesOf schema ''anyOf'') st1 = Inr st2"
      by (auto simp: addSchemaValueCompletions.simps split: sum.splits)
    from r True c1 c2 ty s1 s2 have
      s3: "addSchemaValueCompletions_each uniq (branchesOf schema ''oneOf'') st2 = Inr st'"
      by (auto simp: addSchemaValueCompletions.simps split: sum.splits)
    have nn: "schema \<noteq> JNull" using c1 by (rule addEnum_not_null)
    have T: "\<not> \<not> typeof_object schema" using True by simp
    have t0: "types = fst st \<union> ownTypes schema" using ty by (rule collectTypes_ownTypes)
    have t1: "fst st1 = types \<union> \<Union> (set (map contributedTypes (branchesOf schema ''allOf'')))"
      using "1.IH"(1) [OF T c1 c2 ty s1] by simp
    have t2: "fst st2 = fst st1 \<union> \<Union> (set (map contributedTypes (branchesOf schema ''anyOf'')))"
      using "1.IH"(2) [OF T c1 c2 ty s1 s2] by simp
    have t3: "fst st' = fst st2 \<union> \<Union> (set (map contributedTypes (branchesOf schema ''oneOf'')))"
      using "1.IH"(3) [OF T c1 c2 ty s1 s2 s3] by simp
    show ?thesis
      using True nn t0 t1 t2 t3 by (subst contributedTypes.simps) auto
  qed
next
  case (2 uniq st)
  then show ?case by simp
next
  case (3 uniq s ss st)
  from "3.prems" obtain st1 where a: "addSchemaValueCompletions uniq s st = Inr st1"
    and b: "addSchemaValueCompletions_each uniq ss st1 = Inr st'"
    by (auto split: sum.splits)
  have "fst st1 = fst st \<union> contributedTypes s" using "3.IH"(1) [OF a] by simp
  moreover have "fst st' = fst st1 \<union> \<Union> (set (map contributedTypes ss))"
    using "3.IH"(2) [OF a b] by simp
  ultimately show ?case by auto
qed

text \<open>
  C6, as the code has it. While a fragment is processed, each of its nodes (the fragment
  and, recursively, the members of its \<^verbatim>\<open>allOf\<close>, \<^verbatim>\<open>anyOf\<close>, \<^verbatim>\<open>oneOf\<close>) adds its \<^verbatim>\<open>type\<close> to the
  set of types unless that node itself has an \<^verbatim>\<open>enum\<close> array or a \<^verbatim>\<open>const\<close>: an \<^verbatim>\<open>enum\<close> or
  \<^verbatim>\<open>const\<close> withholds the type of its own node only. At the end of each round of the loop
  over the resolved fragments, \<^verbatim>\<open>true\<close> and \<^verbatim>\<open>false\<close> are added exactly when the set collected
  so far in the request holds "boolean", and \<^verbatim>\<open>null\<close> exactly when it holds "null".
\<close>

theorem literals_follow_types_of_nodes_without_own_enum:
  "(addSchemaValueCompletions uniq fragment (types, c) = Inr (types', c')
      \<longrightarrow> types' = types \<union> contributedTypes fragment)
   \<and> (valueStep h cx inArray hasValue parentKey s st = Inr (types2, c2)
      \<longrightarrow> (\<exists>c1. (case itemsPart cx inArray hasValue s st of
                    Inl e \<Rightarrow> Inl e
                  | Inr st1 \<Rightarrow> propertyPart h parentKey s st1) = Inr (types2, c1)
               \<and> c2 = (if ''null'' \<in> types2 then addNullValueCompletion else id)
                        ((if ''boolean'' \<in> types2
                          then addBooleanValueCompletion False \<circ> addBooleanValueCompletion True
                          else id) c1)))"
proof (intro conjI impI)
  assume "addSchemaValueCompletions uniq fragment (types, c) = Inr (types', c')"
  from types_after(1) [OF this] show "types' = types \<union> contributedTypes fragment" by simp
next
  assume r: "valueStep h cx inArray hasValue parentKey s st = Inr (types2, c2)"
  then obtain st1 where a: "itemsPart cx inArray hasValue s st = Inr st1"
    by (auto simp: valueStep_def split: sum.splits)
  with r obtain st2 where b: "propertyPart h parentKey s st1 = Inr st2"
    and l: "literalsPart st2 = (types2, c2)"
    by (auto simp: valueStep_def split: sum.splits)
  have f: "fst st2 = types2" using l by (auto simp: literalsPart_def Let_def)
  have "(case itemsPart cx inArray hasValue s st of
           Inl e \<Rightarrow> Inl e
         | Inr st1 \<Rightarrow> propertyPart h parentKey s st1) = Inr (types2, snd st2)"
    using a b f by (cases st2) simp
  moreover have "c2 = (if ''null'' \<in> types2 then addNullValueCompletion else id)
                        ((if ''boolean'' \<in> types2
                          then addBooleanValueCompletion False \<circ> addBooleanValueCompletion True
                          else id) (snd st2))"
    using l f by (auto simp: literalsPart_def Let_def)
  ultimately show "\<exists>c1. (case itemsPart cx inArray hasValue s st of
                    Inl e \<Rightarrow> Inl e
                  | Inr st1 \<Rightarrow> propertyPart h parentKey s st1) = Inr (types2, c1)
               \<and> c2 = (if ''null'' \<in> types2 then addNullValueCompletion else id)
                        ((if ''boolean'' \<in> types2
                          then addBooleanValueCompletion False \<circ> addBooleanValueCompletion True
                          else id) c1)"
    by blast
qed

text \<open>
  The claim C6 lets an \<^verbatim>\<open>enum\<close> anywhere in the fragment suppress the literals. The fragment
  of \<^verbatim>\<open>p\<close> has an \<^verbatim>\<open>enum\<close> in its first \<^verbatim>\<open>allOf\<close> branch, and the value proposals are the enum
  member 1 and, from the type of the second branch, \<^verbatim>\<open>true\<close> and \<^verbatim>\<open>false\<close>.
\<close>

theorem enum_in_branch_keeps_boolean_literals_counterexample:
  "get (JObj [(''enum'', JArr [JNum 1])]) ''enum'' = Some (JArr [JNum 1])
   \<and> branchesOf mixNode ''allOf'' = [JObj [(''enum'', JArr [JNum 1])], JObj [(''type'', JStr ''boolean'')]]
   \<and> valueLabels (getValueCompletions silentHost mixSchema mixSchema (propertyValueCtx ''p'') {} new_collector)
       = Some [''1'', ''true'', ''false'']"
  by code_simp

text \<open>
  The same fragment through the theorem: its nodes contribute the one type "boolean",
  and the round of the loop ends with the two boolean literals added.
\<close>

theorem literals_follow_types_of_nodes_without_own_enum_witness:
  "contributedTypes mixNode = {''boolean''}
   \<and> ownTypes (JObj [(''type'', JStr ''boolean''), (''enum'', JArr [JBool True])]) = {}
   \<and> valueLabels (addSchemaValueCompletions False mixNode ({}, new_collector)) = Some [''1'']
   \<and> valueLabels (valueStep silentHost (propertyValueCtx ''p'') False False (Some ''p'') mixSchema
         ({}, new_collector)) = Some [''1'', ''true'', ''false'']"
proof -
  let ?one = "\<lparr>label = ''1'', apply_c = None, type_c = None, detail = None, info = None\<rparr>"
  let ?true = "\<lparr>label = ''true'', apply_c = None, type_c = Some ''boolean'', detail = None, info = None\<rparr>"
  let ?false = "\<lparr>label = ''false'', apply_c = None, type_c = Some ''boolean'', detail = None, info = None\<rparr>"
  let ?c1 = "\<lparr>completions = [(''1'', ?one)], reservedKeys = {}\<rparr>"
  let ?c2 = "\<lparr>completions = [(''1'', ?one), (''true'', ?true), (''false'', ?false)], reservedKeys = {}\<rparr>"
  have a: "addSchemaValueCompletions False mixNode ({}, new_collector) = Inr ({''boolean''}, ?c1)"
    by code_simp
  have b: "valueStep silentHost (propertyValueCtx ''p'') False False (Some ''p'') mixSchema
         ({}, new_collector) = Inr ({''boolean''}, ?c2)"
    by code_simp
  have o: "ownTypes (JObj [(''type'', JStr ''boolean''), (''enum'', JArr [JBool True])]) = {}"
    by code_simp
  from literals_follow_types_of_nodes_without_own_enum
         [of False mixNode "{}" new_collector "{''boolean''}" ?c1
             silentHost "propertyValueCtx ''p''" False False "Some ''p''" mixSchema "({}, new_collector)"
             "{''boolean''}" ?c2]
  have "{''boolean''} = {} \<union> contributedTypes mixNode" using a b by blast
  then have "contributedTypes mixNode = {''boolean''}" by simp
  then show ?thesis using a b o by (simp add: valueLabels_def proposals_def)
qed

section \<open>Unique items\<close>

lemma c_add_unique_step:
  assumes "reservedKeys c = {}" and "keyed c"
  shows "reservedKeys (c_add True v c) = {} \<and> keyed (c_add True v c)
       \<and> set (map fst (completions (c_add True v c))) = insert (label v) (set (map fst (completions c)))"
proof (cases "map_has (label v) (completions c)")
  case True
  then have "label v \<in> fst ` set (completions c)"
    by (simp add: map_has_def map_of_eq_None_iff)
  then show ?thesis using True assms by (auto simp: c_add_def)
next
  case False
  then show ?thesis using assms keyed_add [OF assms(2), of v]
    by (auto simp: c_add_def add_def keys_map_set)
qed

lemma c_add_unique_fold:
  assumes "reservedKeys c = {}" and "keyed c"
  shows "reservedKeys (fold (\<lambda>e. c_add True (f e)) es c) = {}
       \<and> keyed (fold (\<lambda>e. c_add True (f e)) es c)
       \<and> set (map fst (completions (fold (\<lambda>e. c_add True (f e)) es c)))
           = set (map fst (completions c)) \<union> (\<lambda>e. label (f e)) ` set es"
  using assms
proof (induction es arbitrary: c)
  case Nil
  then show ?case by simp
next
  case (Cons e es)
  note s = c_add_unique_step [OF Cons.prems, of "f e"]
  have "reservedKeys (c_add True (f e) c) = {}" and "keyed (c_add True (f e) c)" using s by simp_all
  from Cons.IH [OF this] s show ?case by auto
qed

lemma keyed_labels: "keyed c \<Longrightarrow> map label (proposals c) = map fst (completions c)"
  by (auto simp: keyed_def proposals_def)

lemma addSchema_enumItems:
  "addSchemaValueCompletions uniq (enumItems es) (types, c)
     = Inr (types, fold (\<lambda>enm. c_add uniq (valueCompletion (enumItems es) enm)) es c)"
proof -
  have e: "addEnumValueCompletions uniq (enumItems es) c
             = Inr (fold (\<lambda>enm. c_add uniq (valueCompletion (enumItems es) enm)) es c)"
    by (simp add: addEnumValueCompletions_def enumItems_def get_def)
  have d: "\<And>c. addDefaultValueCompletions uniq (enumItems es) c 0 = Inr c"
    by (subst addDefaultValueCompletions.simps)
       (simp add: enumItems_def recursesIntoItems_def hasProposals_def get_def addOwnDefaults_def)
  have t: "collectTypes (enumItems es) types = Inr types"
    by (simp add: collectTypes_def enumItems_def get_def isArray_def)
  have b: "\<And>k. k \<noteq> ''enum'' \<Longrightarrow> branchesOf (enumItems es) k = []"
    by (simp add: branchesOf_def enumItems_def get_def)
  show ?thesis
    by (subst addSchemaValueCompletions.simps)
       (simp add: e d t b typeof_object_def enumItems_def [symmetric], simp add: enumItems_def typeof_object_def)
qed

lemma getSchemas_root_array:
  assumes "CHR ''/'' \<notin> set seg"
    and "getSchema h this_schema (''/'' @ seg) = Some (enumItems es)
         \<or> getSchema h this_schema (''/'' @ seg) = None"
  shows "getSchemas h this_schema schema (''/'' @ seg) = Inr [schema]"
proof -
  have n: "needsParentPointer (getSchema h this_schema (''/'' @ seg))"
    using assms(2) by (auto simp: needsParentPointer_def enumItems_def get_def truthy_opt_def truthy_def)
  have p: "parentPointer (''/'' @ seg) = ''/''"
  proof -
    have "dropWhile (\<lambda>c. c \<noteq> CHR ''/'') (rev seg @ ''/'') = ''/''"
      using assms(1) by (subst dropWhile_append2) auto
    then show ?thesis by (simp add: parentPointer_def)
  qed
  show ?thesis using n p by (simp add: getSchemas_def resolvePointer_def)
qed

text \<open>
  C4, as the code has it. Completing an element of an array whose schema declares
  \<^verbatim>\<open>uniqueItems\<close> and \<^verbatim>\<open>items\<close> with an \<^verbatim>\<open>enum\<close>, from a fresh collector, proposes every member of
  the \<^verbatim>\<open>enum\<close> once: for red, green, blue all three, "red" included. This holds for every
  array node at the cursor, every element pointer and every index the editor reports; no
  element already in the document is consulted. Under \<^verbatim>\<open>uniqueItems\<close> a proposal is
  dropped only when a proposal with its label has been collected before.
\<close>

theorem uniqueItems_proposes_every_enum_member:
  assumes "valueContext cx = InContainer True hasValue None"
    and "jsonPointerForPosition cx = ''/'' @ seg" and "CHR ''/'' \<notin> set seg"
    and "getSchema h (uniqueArrayOf es) (''/'' @ seg) = Some (enumItems es)
         \<or> getSchema h (uniqueArrayOf es) (''/'' @ seg) = None"
  shows "\<exists>c. getValueCompletions h (uniqueArrayOf es) (uniqueArrayOf es) cx {} new_collector = Inr ({}, c)
           \<and> set (map label (proposals c)) = set (map getLabelForValue es)
           \<and> distinct (map label (proposals c))"
proof -
  let ?S = "uniqueArrayOf es"
  let ?c = "fold (\<lambda>enm. c_add True (valueCompletion (enumItems es) enm)) es new_collector"
  have g: "getSchemas h ?S ?S (jsonPointerForPosition cx) = Inr [?S]"
    using getSchemas_root_array [OF assms(3,4)] assms(2) by simp
  have i: "itemsPart cx True hasValue ?S ({}, new_collector) = Inr ({}, ?c)"
    by (simp add: itemsPart_def uniqueArrayOf_def get_def truthy_def truthy_opt_def
        addSchema_enumItems, simp add: enumItems_def addSchema_enumItems [unfolded enumItems_def])
  have s: "valueStep h cx True hasValue None ?S ({}, new_collector) = Inr ({}, ?c)"
    by (simp add: valueStep_def i propertyPart_def literalsPart_def)
  have r: "getValueCompletions h ?S ?S cx {} new_collector = Inr ({}, ?c)"
    using assms(1) g s by (simp add: getValueCompletions_def uniqueArrayOf_def typeof_object_def)
  have k0: "reservedKeys new_collector = {}" "keyed new_collector"
    by (simp_all add: new_collector_def keyed_def)
  note f = c_add_unique_fold [OF k0, of "valueCompletion (enumItems es)" es]
  have L: "map label (proposals ?c) = map fst (completions ?c)" using f by (simp add: keyed_labels)
  have X: "set (map fst (completions ?c)) = set (map getLabelForValue es)"
    using f by (auto simp: new_collector_def valueCompletion_def)
  have D: "distinct (map fst (completions ?c))" using f by (simp add: keyed_def)
  have A: "set (map label (proposals ?c)) = set (map getLabelForValue es)"
    unfolding L by (rule X)
  have B: "distinct (map label (proposals ?c))" unfolding L by (rule D)
  show ?thesis using r A B by blast
qed

text \<open>
  The claim C4 expects "green" and "blue" only. The value proposals for the document
  \<^verbatim>\<open>["red", |]\<close> are "red", "green" and "blue".
\<close>

theorem uniqueItems_sibling_not_suppressed_counterexample:
  "valueLabels (getValueCompletions coloursHost (uniqueArrayOf colours) (uniqueArrayOf colours)
      coloursCtx {} new_collector)
     = Some [dq # ''red'' @ [dq], dq # ''green'' @ [dq], dq # ''blue'' @ [dq]]"
  by code_simp

text \<open>The example through the theorem: the labels are those of the three colours.\<close>

theorem uniqueItems_proposes_every_enum_member_witness:
  "valueContext coloursCtx = InContainer True False None
   \<and> jsonPointerForPosition coloursCtx = ''/'' @ ''1'' \<and> CHR ''/'' \<notin> set ''1''
   \<and> getSchema coloursHost (uniqueArrayOf colours) (''/'' @ ''1'') = Some (enumItems colours)
   \<and> (\<exists>c. getValueCompletions coloursHost (uniqueArrayOf colours) (uniqueArrayOf colours)
              coloursCtx {} new_collector = Inr ({}, c)
          \<and> set (map label (proposals c))
              = {dq # ''red'' @ [dq], dq # ''green'' @ [dq], dq # ''blue'' @ [dq]}
          \<and> distinct (map label (proposals c)))"
proof -
  have a: "valueContext coloursCtx = InContainer True False None" by code_simp
  have b: "jsonPointerForPosition coloursCtx = ''/'' @ ''1''" by (simp add: coloursCtx_def)
  have c: "CHR ''/'' \<notin> set ''1''" by simp
  have d: "getSchema coloursHost (uniqueArrayOf colours) (''/'' @ ''1'') = Some (enumItems colours)"
    by (simp add: coloursHost_def)
  have l: "set (map getLabelForValue colours) = {dq # ''red'' @ [dq], dq # ''green'' @ [dq], dq # ''blue'' @ [dq]}"
    by (simp add: colours_def getLabelForValue_def stringify_def quoteJSONString_def quoteChar_def
        dq_def bsl_def)
  from uniqueItems_proposes_every_enum_member [OF a b c disjI1 [OF d]]
  show ?thesis using a b c d l by simp
qed

section \<open>A fragment that is not an object\<close>

lemma valueLoop_stops:
  "\<not> typeof_object b \<Longrightarrow>
   valueLoop h cx inArray hasValue parentKey (pre @ b # post) st
     = valueLoop h cx inArray hasValue parentKey pre st"
proof (induction pre arbitrary: st)
  case Nil
  then show ?case by simp
next
  case (Cons s pre)
  then show ?case by (simp split: sum.splits)
qed

lemma foldE_append:
  "foldE f (xs @ ys) s = (case foldE f xs s of Inl e \<Rightarrow> Inl e | Inr s' \<Rightarrow> foldE f ys s')"
  by (induction xs arbitrary: s) (simp_all split: sum.splits)

lemma propertyLoop_skips:
  "\<not> typeof_object b \<Longrightarrow>
   foldE (propertyStep this_schema isJSON5 addValue rawWord) (pre @ b # post) c
     = foldE (propertyStep this_schema isJSON5 addValue rawWord) (pre @ post) c"
  by (simp add: foldE_append propertyStep_def split: sum.splits)

text \<open>
  C10. Let the fragments resolved for the cursor be \<open>pre\<close>, then an entry \<open>b\<close> that is not
  an object (a boolean schema), then \<open>post\<close>. Value completion, when it reaches its loop,
  returns at \<open>b\<close>: its result is that of the loop over \<open>pre\<close> alone, and \<open>post\<close> contributes
  nothing. Property completion skips \<open>b\<close>: its result is that of its loop over \<open>pre\<close>
  followed by \<open>post\<close>.
\<close>

theorem non_object_fragment_ends_values_but_not_properties:
  assumes "\<not> typeof_object b"
    and "getSchemas h this_schema schema (jsonPointerForPosition cx) = Inr (pre @ b # post)"
    and "valueContext cx = InContainer inArray hasValue parentKey"
  shows "getValueCompletions h this_schema schema cx types collector
           = valueLoop h cx inArray hasValue parentKey pre (types, collector)
       \<and> getPropertyCompletions h strip this_schema isJSON5 schema cx siblingWords collector addValue rawWord
           = foldE (propertyStep this_schema isJSON5 addValue rawWord) (pre @ post)
               (fold (\<lambda>key. reserve (strip key)) siblingWords collector)"
  using assms
  by (simp add: getValueCompletions_def getPropertyCompletions_def valueLoop_stops propertyLoop_skips)

theorem non_object_fragment_ends_values_but_not_properties_witness:
  "\<not> typeof_object (JBool True)
   \<and> getSchemas objHost objRoot objRoot (jsonPointerForPosition objValueCtx)
       = Inr ([objNode] @ JBool True # [laterBranch])
   \<and> valueContext objValueCtx = InContainer False False (Some ''k'')
   \<and> valueLabels (getValueCompletions objHost objRoot objRoot objValueCtx {} new_collector)
       = Some [dq # ''a'' @ [dq]]
   \<and> valueLabels (valueLoop objHost objValueCtx False False (Some ''k'') [objNode, laterBranch] ({}, new_collector))
       = Some [dq # ''a'' @ [dq], dq # ''b'' @ [dq]]
   \<and> propertyLabels (getPropertyCompletions objHost stripSurroundingQuotes objRoot False objRoot
         objValueCtx [] new_collector True [])
       = Some [''k'', ''z'']"
proof -
  have a: "\<not> typeof_object (JBool True)" by (simp add: typeof_object_def)
  have b: "getSchemas objHost objRoot objRoot (jsonPointerForPosition objValueCtx)
             = Inr ([objNode] @ JBool True # [laterBranch])"
    by code_simp
  have c: "valueContext objValueCtx = InContainer False False (Some ''k'')" by code_simp
  have v: "valueLabels (valueLoop objHost objValueCtx False False (Some ''k'') [objNode] ({}, new_collector))
             = Some [dq # ''a'' @ [dq]]"
    by code_simp
  have w: "valueLabels (valueLoop objHost objValueCtx False False (Some ''k'') [objNode, laterBranch] ({}, new_collector))
             = Some [dq # ''a'' @ [dq], dq # ''b'' @ [dq]]"
    by code_simp
  have p: "propertyLabels (foldE (propertyStep objRoot False True []) ([objNode] @ [laterBranch])
              (fold (\<lambda>key. reserve (stripSurroundingQuotes key)) [] new_collector))
             = Some [''k'', ''z'']"
    by code_simp
  from non_object_fragment_ends_values_but_not_properties [OF a b c,
         of "{}" new_collector stripSurroundingQuotes False "[]" True "[]"]
  show ?thesis using a b c v w p by simp
qed

end
